theory Spec2Isabelle
  imports Complex_Main
begin

section \<open>The simulation runner of keyhole (sim/runner.go)\<close>

text \<open>
  The runner talks to a MongoDB cluster, the terminal and the file system. Every such
  call is an \<open>event\<close> of a trace, and what the outside world answers is read from an
  environment record, so that each function of the source is a pure function from the
  runner, the environment and its arguments to the trace it leaves and the way it ends.
\<close>

subsection \<open>Errors, ways to stop, traces\<close>

datatype error =
    InvalidClusterType string  \<comment> \<open>errors.New("invalid cluster type: " + clusterType)\<close>
  | DriverError string         \<comment> \<open>any error handed back by the driver or a collaborator\<close>

datatype halt =
    OsExit int                 \<comment> \<open>os.Exit(code)\<close>
  | LogFatal error             \<comment> \<open>log.Fatal(err): prints and exits with status 1\<close>
  | IndexOutOfRange int nat    \<comment> \<open>runtime panic: index, length\<close>

datatype 'a result = Return 'a | Halt halt

datatype event =
    Log string
  | LogError error
  | PrintError error
  | Prompt
  | Sleep nat                         \<comment> \<open>milliseconds\<close>
  | DropCollection string string
  | DropDatabase string
  | InitSimDocs
  | GetTransactions string
  | CreateOne "(string \<times> int) list"
  | FindPrimary string
  | EnableSharding string
  | ShardCollection string
  | FindShards
  | Split string string               \<comment> \<open>namespace, middle value of email\<close>
  | FindChunks string
  | MoveChunk string string string    \<comment> \<open>namespace, min of the chunk, target shard\<close>
  | Go nat                            \<comment> \<open>go func(thread)\<close>
  | NewMongoClient string
  | PrintServerStatus string
  | Marshal
  | OutputGzipped "string option" string
  | PopulateData nat
  | Simulate int nat

type_synonym 'a prog = "event list \<times> 'a result"

fun after :: "event list \<Rightarrow> 'a prog \<Rightarrow> 'a prog" where
  "after tr (tr', r) = (tr @ tr', r)"

subsection \<open>The runner\<close>

record ConnString =
  cs_String :: string
  Database :: string
  SSLCaFile :: string
  SSLClientCertificateKeyFile :: string

record Runner =
  auto :: bool
  clusterType :: string
  collectionName :: string
  conns :: int
  connString :: ConnString
  dbName :: string
  drop_mode :: bool          \<comment> \<open>field drop\<close>
  duration :: int
  filename :: string
  metrics :: "(string \<times> string list) list"
  peek :: bool
  simOnly :: bool
  tps :: int
  txFilename :: string
  uri :: string
  uriList :: "string list"
  verbose :: bool

text \<open>
  Modelled from the spec: the constants of package mdb, whose declarations are not among
  the sources. The comment in Start names the database (\<open>_KEYHOLE_88800\<close>); the spec
  calls the collection the examples collection and the cluster type sharded. Of the
  last two strings the general theorems use only that they are fixed and, for the
  cluster type, not empty; their letters show only in the worked examples.
\<close>

definition KeyholeDB :: string where
  "KeyholeDB = ''_KEYHOLE_88800''"

definition ExamplesCollection :: string where
  "ExamplesCollection = ''examples''"

definition Sharded :: string where
  "Sharded = ''SHARDED''"

subsection \<open>splitChunks\<close>

datatype chunk = Chunk (chunk_shard: string) (chunk_min: string)

record shard_env =
  findPrimary :: "string \<Rightarrow> error + string"
  enableSharding :: "string \<Rightarrow> error option"
  shardCollection :: "string \<Rightarrow> error option"
  findShards :: "error + (error + string) list"
  runSplit :: "string \<Rightarrow> error option"
  findChunks :: "string \<Rightarrow> error + (error + chunk) list"
  runMoveChunk :: "string \<Rightarrow> string \<Rightarrow> error option"

text \<open>The array of the source holds the 26 capital letters, each as a string of one
  character, from A to Z.\<close>

definition shardKeys :: "string list" where
  "shardKeys = map (\<lambda>c. [c]) ''ABCDEFGHIJKLMNOPQRSTUVWXYZ''"

text \<open>The cursor over config.shards: a document that fails to decode is logged and
  skipped, the primary shard is left out.\<close>

fun collect_shards :: "string \<Rightarrow> (error + string) list \<Rightarrow> event list \<times> string list" where
  "collect_shards primary [] = ([], [])"
| "collect_shards primary (Inl e # ds) =
     (case collect_shards primary ds of (tr, shards) \<Rightarrow> (LogError e # tr, shards))"
| "collect_shards primary (Inr v # ds) =
     (case collect_shards primary ds of (tr, shards) \<Rightarrow>
        (tr, if primary \<noteq> v then v # shards else shards))"

definition divider_of :: "string list \<Rightarrow> nat" where
  "divider_of shards = 1 + length shardKeys div (length shards + 1)"

text \<open>\<open>for i := range shards\<close>: the key is read from the array before the command
  runs, and an index past the end panics. The result \<open>None\<close> is the loop running to
  its end, \<open>Some e\<close> is \<open>return err\<close>.\<close>

fun split_loop :: "shard_env \<Rightarrow> string \<Rightarrow> nat \<Rightarrow> nat list \<Rightarrow> (error option) prog" where
  "split_loop env ns divider [] = ([], Return None)"
| "split_loop env ns divider (i # is) =
     (let idx = (i + 1) * divider in
      if idx \<ge> length shardKeys then ([], Halt (IndexOutOfRange (int idx) (length shardKeys)))
      else after [Split ns (shardKeys ! idx)]
        (case runSplit env (shardKeys ! idx) of
           Some e \<Rightarrow> ([], Return (Some e))
         | None \<Rightarrow> split_loop env ns divider is))"

text \<open>The walk over the chunks, sorted by \<open>_id\<close> descending by the query. \<open>i\<close> is
  the index of the shard being filled.\<close>

fun move_loop :: "shard_env \<Rightarrow> string \<Rightarrow> string list \<Rightarrow> nat \<Rightarrow> (error + chunk) list \<Rightarrow> unit prog" where
  "move_loop env ns shards i [] = ([], Return ())"
| "move_loop env ns shards i (Inl e # cs) = move_loop env ns shards i cs"
| "move_loop env ns shards i (Inr v # cs) =
     (if i \<ge> length shards then ([], Halt (IndexOutOfRange (int i) (length shards)))
      else if chunk_shard v = shards ! i then move_loop env ns shards (i + 1) cs
      else after [Log ''moving'', MoveChunk ns (chunk_min v) (shards ! i)]
        (case runMoveChunk env (chunk_min v) (shards ! i) of
           Some e \<Rightarrow> ([], Halt (LogFatal e))
         | None \<Rightarrow>
             if i + 1 = length shards then ([], Return ())
             else move_loop env ns shards (i + 1) cs))"

definition splitChunks :: "shard_env \<Rightarrow> Runner \<Rightarrow> (error option) prog" where
  "splitChunks env rn =
     (let ns = dbName rn @ ''.'' @ collectionName rn in
      after [FindPrimary (dbName rn)]
      (case findPrimary env (dbName rn) of
         Inl e \<Rightarrow> ([], Return (Some e))
       | Inr primary \<Rightarrow>
      after [Log ''Sharding collection'', EnableSharding (dbName rn)]
      (case enableSharding env (dbName rn) of
         Some e \<Rightarrow> ([], Return (Some e))
       | None \<Rightarrow>
      after [ShardCollection ns]
      (case shardCollection env ns of
         Some e \<Rightarrow> ([], Return (Some e))
       | None \<Rightarrow>
      after [Log ''splitting chunks...'', FindShards]
      (case findShards env of
         Inl e \<Rightarrow> ([], Return (Some e))
       | Inr docs \<Rightarrow>
      (case collect_shards primary docs of (tr, shards) \<Rightarrow>
      after tr
      (case split_loop env ns (divider_of shards) [0 ..< length shards] of
         (tr1, Halt h) \<Rightarrow> (tr1, Halt h)
       | (tr1, Return (Some e)) \<Rightarrow> (tr1, Return (Some e))
       | (tr1, Return None) \<Rightarrow>
      after (tr1 @ [Log ''moving chunks...'', FindChunks ns])
      (case findChunks env ns of
         Inl e \<Rightarrow> ([], Return (Some e))
       | Inr chunks \<Rightarrow>
      (case move_loop env ns shards 0 chunks of
         (tr2, Halt h) \<Rightarrow> (tr2, Halt h)
       | (tr2, Return u) \<Rightarrow> (tr2 @ [Sleep 1000], Return None))))))))))"

subsection \<open>createIndexes\<close>

datatype bval = IntVal int | FloatVal real | OtherVal

record env =
  stdin_text :: string                                  \<comment> \<open>what ReadString returns\<close>
  tdoc_Indexes :: "(string \<times> bval) list list"           \<comment> \<open>GetTransactions(...).Indexes\<close>
  createOne :: "(string \<times> int) list \<Rightarrow> error option"
  shard :: shard_env
  dropCollection :: "error option"
  dropDatabase :: "error option"
  populateData :: "nat \<Rightarrow> error option"
  simulate :: "int \<Rightarrow> nat \<Rightarrow> error option"
  newMongoClient :: "string \<Rightarrow> error option"
  printServerStatus :: "string \<Rightarrow> error + string"
  marshal :: "(string \<times> string list) list \<Rightarrow> error + string"
  fileTimestamp :: string

fun index_order :: "bval \<Rightarrow> int" where
  "index_order (IntVal n) = (if n < 0 then - 1 else 1)"
| "index_order (FloatVal r) = (if r < 0 then - 1 else 1)"
| "index_order OtherVal = 1"

text \<open>\<open>for _, doc := range docs\<close>; a document is the list of its fields in the order
  the iteration visits them.\<close>

fun index_loop :: "env \<Rightarrow> (string \<times> bval) list list \<Rightarrow> (error option) prog" where
  "index_loop env [] = ([], Return None)"
| "index_loop env (doc # docs) =
     (let keys = map (\<lambda>(k, v). (k, index_order v)) doc in
      after [CreateOne keys]
        (case createOne env keys of
           Some e \<Rightarrow> ([], Return (Some e))
         | None \<Rightarrow> index_loop env docs))"

text \<open>With no index documents the loop at the end does not run, and \<open>return err\<close> hands
  back what splitChunks left in \<open>err\<close> after it was printed.\<close>

definition createIndexes :: "env \<Rightarrow> Runner \<Rightarrow> (string \<times> bval) list list \<Rightarrow> (error option) prog" where
  "createIndexes env rn docs =
     after [CreateOne [(''_search'', 1)]]
     (case createOne env [(''_search'', 1)] of
        Some e \<Rightarrow> ([], Return (Some e))
      | None \<Rightarrow>
          if length docs = 0 then
            after [CreateOne [(''email'', 1)]]
            (case createOne env [(''email'', 1)] of
               Some e \<Rightarrow> ([], Return (Some e))
             | None \<Rightarrow>
                 if clusterType rn = Sharded then
                   (case splitChunks (shard env) rn of
                      (tr, Return (Some e)) \<Rightarrow> (tr @ [PrintError e], Return (Some e))
                    | (tr, r) \<Rightarrow> (tr, r))
                 else ([], Return None))
          else index_loop env docs)"

subsection \<open>Cleanup\<close>

definition Cleanup :: "env \<Rightarrow> Runner \<Rightarrow> (error option) prog" where
  "Cleanup env rn =
     (if peek rn then ([], Return None)
      else if \<not> simOnly rn \<and> dbName rn = KeyholeDB then
        ((if collectionName rn = ExamplesCollection then
            [Log ''dropping collection'', DropCollection KeyholeDB ExamplesCollection]
            @ (case dropCollection env of Some e \<Rightarrow> [LogError e] | None \<Rightarrow> [])
          else [])
         @ [Log ''dropping temp database'', DropDatabase (dbName rn)]
         @ (case dropDatabase env of Some e \<Rightarrow> [LogError e] | None \<Rightarrow> [])
         @ [Sleep 1000],
         Return (dropDatabase env))
      else ([Sleep 1000], Return None))"

subsection \<open>Start and its workers\<close>

text \<open>The body of the goroutine of one thread. It reads \<open>simTime\<close> and the runner as
  Start left them.\<close>

definition simulate_step :: "env \<Rightarrow> int \<Rightarrow> nat \<Rightarrow> event list" where
  "simulate_step env simTime thread =
     Simulate simTime thread #
       (case simulate env simTime thread of
          Some e \<Rightarrow> [Log ''Thread existing with'', LogError e]
        | None \<Rightarrow> [])"

definition worker :: "env \<Rightarrow> Runner \<Rightarrow> int \<Rightarrow> nat \<Rightarrow> event list" where
  "worker env rn simTime thread =
     (if \<not> simOnly rn \<and> duration rn > 0 then
        PopulateData thread #
          (case populateData env thread of
             Some e \<Rightarrow> [Log ''Thread existing with'', LogError e]
           | None \<Rightarrow> Sleep 10 # simulate_step env simTime thread)
      else simulate_step env simTime thread)"

definition confirm :: "env \<Rightarrow> Runner \<Rightarrow> unit prog" where
  "confirm env rn =
     (if \<not> auto rn then
        (let text = filter (\<lambda>c. c \<noteq> CHR 0x0A) (stdin_text env) in
         if text \<noteq> ''y'' \<and> text \<noteq> ''Y'' then ([Prompt], Halt (OsExit 0))
         else ([Prompt], Return ()))
      else ([], Return ()))"

definition switch_db :: "Runner \<Rightarrow> Runner" where
  "switch_db rn =
     (if dbName rn = [] \<or> dbName rn = ''admin'' \<or> dbName rn = ''config'' \<or> dbName rn = ''local''
      then rn\<lparr>dbName := KeyholeDB\<rparr> else rn)"

text \<open>Start hands back the runner as it left it and the body of every goroutine it
  started, in the order of the threads; the error it returns is always nil.\<close>

definition Start :: "env \<Rightarrow> Runner \<Rightarrow> (Runner \<times> event list list) prog" where
  "Start env rn =
     (if peek rn then ([], Return (rn, []))
      else
        (case confirm env rn of
           (tr0, Halt h) \<Rightarrow> (tr0, Halt h)
         | (tr0, Return u) \<Rightarrow>
             (let rn1 = switch_db rn;
                  trc = (if drop_mode rn1 then fst (Cleanup env rn1) else []);
                  simTime = (if \<not> simOnly rn1 then duration rn1 - 1 else duration rn1);
                  idx = (if \<not> simOnly rn1 then createIndexes env rn1 (tdoc_Indexes env)
                         else ([], Return None));
                  tr = tr0 @ [Log ''Duration in minute(s)''] @ trc
                       @ [InitSimDocs, GetTransactions (txFilename rn1), Log ''Total TPS'']
                       @ fst idx
              in case snd idx of
                   Halt h \<Rightarrow> (tr, Halt h)
                 | Return e \<Rightarrow>
                     (tr @ map Go [0 ..< nat (conns rn1)],
                      Return (rn1, map (worker env rn1 simTime) [0 ..< nat (conns rn1)])))))"

subsection \<open>terminate\<close>

fun collect_loop :: "env \<Rightarrow> string list \<Rightarrow> string list \<Rightarrow> event list \<times> string list" where
  "collect_loop env [] filenames = ([], filenames)"
| "collect_loop env (u # us) filenames =
     (case newMongoClient env u of
        Some e \<Rightarrow>
          (case collect_loop env us filenames of
             (tr, fs) \<Rightarrow> (NewMongoClient u # LogError e # tr, fs))
      | None \<Rightarrow>
          (case printServerStatus env u of
             Inl e \<Rightarrow>
               (case collect_loop env us filenames of
                  (tr, fs) \<Rightarrow> (NewMongoClient u # PrintServerStatus u # LogError e # tr, fs))
           | Inr f \<Rightarrow>
               (case collect_loop env us (filenames @ [f]) of
                  (tr, fs) \<Rightarrow> (NewMongoClient u # PrintServerStatus u # tr, fs))))"

definition perf_filename :: "env \<Rightarrow> string" where
  "perf_filename env = ''keyhole_perf.'' @ fileTimestamp env @ ''.bson.gz''"

definition terminate :: "env \<Rightarrow> Runner \<Rightarrow> unit prog" where
  "terminate env rn =
     (let trc = fst (Cleanup env rn);
          (trs, filenames) = collect_loop env (uriList rn) [];
          filename = perf_filename env;
          (trm, buf) = (case marshal env (metrics rn) of
                          Inl e \<Rightarrow> ([Marshal, Log ''marshal error:'', LogError e], None)
                        | Inr b \<Rightarrow> ([Marshal], Some b))
      in (trc @ trs @ map (\<lambda>f. Log (''stats written to '' @ f)) filenames
          @ trm @ [OutputGzipped buf filename, Log (''optime written to '' @ filename)],
          Halt (OsExit 0)))"

subsection \<open>NewRunner\<close>

datatype shard_doc = Shard (shard_id: string) (shard_host: string)

record topo_env =
  cluster :: string                                   \<comment> \<open>stats.Cluster after the probe\<close>
  getShards :: "error + shard_doc list"               \<comment> \<open>mdb.GetShards(client)\<close>
  shardURI :: "shard_doc \<Rightarrow> ConnString \<Rightarrow> error + string"

text \<open>
  Modelled from the spec: mdb.GetAllShardURIs, which is not among the sources. The spec
  (4.1) has it derive one connection descriptor per shard, reusing the material of the
  entry connection, and surface a failure; how one descriptor is derived from one shard
  is the parameter \<open>derive\<close>. It hands back a list and an error, as the call site reads
  them.
\<close>

fun GetAllShardURIs ::
  "(shard_doc \<Rightarrow> ConnString \<Rightarrow> error + string) \<Rightarrow> shard_doc list \<Rightarrow> ConnString
     \<Rightarrow> string list \<times> error option" where
  "GetAllShardURIs derive [] cs = ([], None)"
| "GetAllShardURIs derive (s # ss) cs =
     (case derive s cs of
        Inl e \<Rightarrow> ([], Some e)
      | Inr u \<Rightarrow>
          (case GetAllShardURIs derive ss cs of
             (us, None) \<Rightarrow> (u # us, None)
           | (us, Some e) \<Rightarrow> ([], Some e)))"

definition new_runner :: "ConnString \<Rightarrow> Runner" where
  "new_runner cs =
     \<lparr> auto = False, clusterType = [], collectionName = ExamplesCollection, conns = 0,
       connString = cs, dbName = (if Database cs = [] then KeyholeDB else Database cs),
       drop_mode = False, duration = 0, filename = [], metrics = [], peek = False,
       simOnly = False, tps = 0, txFilename = [], uri = [], uriList = [], verbose = False \<rparr>"

text \<open>The last line reads \<open>uriList[len(uriList)-1]\<close>, which panics on an empty list.\<close>

definition set_uri :: "Runner \<Rightarrow> (Runner option \<times> error option) result" where
  "set_uri rn =
     (if uriList rn = [] then Halt (IndexOutOfRange (- 1) 0)
      else Return (Some (rn\<lparr>uri := last (uriList rn)\<rparr>), None))"

definition NewRunner :: "env \<Rightarrow> topo_env \<Rightarrow> ConnString \<Rightarrow> (Runner option \<times> error option) result" where
  "NewRunner env tenv cs =
     (let runner = new_runner cs in
      case newMongoClient env (cs_String cs) of
        Some e \<Rightarrow> Return (Some runner, Some e)
      | None \<Rightarrow>
          (let runner = runner\<lparr>clusterType := cluster tenv\<rparr> in
           if clusterType runner = [] then
             Return (None, Some (InvalidClusterType (''invalid cluster type: '' @ clusterType runner)))
           else
             (let runner = runner\<lparr>uriList := [cs_String cs]\<rparr> in
              if clusterType runner = Sharded then
                (case getShards tenv of
                   Inl e \<Rightarrow> Return (Some runner, Some e)
                 | Inr shards \<Rightarrow>
                     (case GetAllShardURIs (shardURI tenv) shards cs of
                        (uris, Some e) \<Rightarrow> Return (Some (runner\<lparr>uriList := uris\<rparr>), Some e)
                      | (uris, None) \<Rightarrow> set_uri (runner\<lparr>uriList := uris\<rparr>)))
              else set_uri runner)))"

subsection \<open>The setters\<close>

definition SetCollection :: "string \<Rightarrow> Runner \<Rightarrow> Runner" where
  "SetCollection name rn =
     (if name \<noteq> [] then rn\<lparr>collectionName := name\<rparr>
      else rn\<lparr>collectionName := ExamplesCollection\<rparr>)"

definition SetTPS :: "int \<Rightarrow> Runner \<Rightarrow> Runner" where
  "SetTPS n rn = rn\<lparr>tps := n\<rparr>"

definition SetAutoMode :: "bool \<Rightarrow> Runner \<Rightarrow> Runner" where
  "SetAutoMode b rn = rn\<lparr>auto := b\<rparr>"

definition SetTemplateFilename :: "string \<Rightarrow> Runner \<Rightarrow> Runner" where
  "SetTemplateFilename f rn = rn\<lparr>filename := f\<rparr>"

definition SetVerbose :: "bool \<Rightarrow> Runner \<Rightarrow> Runner" where
  "SetVerbose b rn = rn\<lparr>verbose := b\<rparr>"

text \<open>SetPeekingMode starts a goroutine when the mode is on; the goroutine's argument
  \<open>x\<close> is the duration field as it is at the call. The second component is that
  argument, in minutes, when a goroutine was started.\<close>

definition SetPeekingMode :: "bool \<Rightarrow> Runner \<Rightarrow> Runner \<times> int option" where
  "SetPeekingMode mode rn =
     (let rn' = rn\<lparr>peek := mode\<rparr> in
      if peek rn' then (rn', Some (duration rn')) else (rn', None))"

definition SetSimulationDuration :: "int \<Rightarrow> Runner \<Rightarrow> Runner" where
  "SetSimulationDuration d rn = rn\<lparr>duration := d\<rparr>"

definition SetDropFirstMode :: "bool \<Rightarrow> Runner \<Rightarrow> Runner" where
  "SetDropFirstMode b rn = rn\<lparr>drop_mode := b\<rparr>"

definition SetNumberConnections :: "int \<Rightarrow> Runner \<Rightarrow> Runner" where
  "SetNumberConnections n rn = rn\<lparr>conns := n\<rparr>"

definition SetTransactionTemplateFilename :: "string \<Rightarrow> Runner \<Rightarrow> Runner" where
  "SetTransactionTemplateFilename f rn = rn\<lparr>txFilename := f\<rparr>"

definition SetSimOnlyMode :: "bool \<Rightarrow> Runner \<Rightarrow> Runner" where
  "SetSimOnlyMode b rn = rn\<lparr>simOnly := b\<rparr>"

text \<open>A caller configures the runner by a sequence of setter calls. The state is the
  runner and the arguments of the peek goroutines started so far, oldest first.\<close>

datatype call =
    CallSetCollection string
  | CallSetTPS int
  | CallSetAutoMode bool
  | CallSetTemplateFilename string
  | CallSetVerbose bool
  | CallSetPeekingMode bool
  | CallSetSimulationDuration int
  | CallSetDropFirstMode bool
  | CallSetNumberConnections int
  | CallSetTransactionTemplateFilename string
  | CallSetSimOnlyMode bool

fun apply_call :: "Runner \<times> int list \<Rightarrow> call \<Rightarrow> Runner \<times> int list" where
  "apply_call (rn, ts) (CallSetCollection n) = (SetCollection n rn, ts)"
| "apply_call (rn, ts) (CallSetTPS n) = (SetTPS n rn, ts)"
| "apply_call (rn, ts) (CallSetAutoMode b) = (SetAutoMode b rn, ts)"
| "apply_call (rn, ts) (CallSetTemplateFilename f) = (SetTemplateFilename f rn, ts)"
| "apply_call (rn, ts) (CallSetVerbose b) = (SetVerbose b rn, ts)"
| "apply_call (rn, ts) (CallSetPeekingMode b) =
     (case SetPeekingMode b rn of
        (rn', Some x) \<Rightarrow> (rn', ts @ [x])
      | (rn', None) \<Rightarrow> (rn', ts))"
| "apply_call (rn, ts) (CallSetSimulationDuration d) = (SetSimulationDuration d rn, ts)"
| "apply_call (rn, ts) (CallSetDropFirstMode b) = (SetDropFirstMode b rn, ts)"
| "apply_call (rn, ts) (CallSetNumberConnections n) = (SetNumberConnections n rn, ts)"
| "apply_call (rn, ts) (CallSetTransactionTemplateFilename f) =
     (SetTransactionTemplateFilename f rn, ts)"
| "apply_call (rn, ts) (CallSetSimOnlyMode b) = (SetSimOnlyMode b rn, ts)"

definition run_calls :: "call list \<Rightarrow> Runner \<Rightarrow> Runner \<times> int list" where
  "run_calls cs rn = foldl apply_call (rn, []) cs"

fun is_SetSimulationDuration :: "call \<Rightarrow> bool" where
  "is_SetSimulationDuration (CallSetSimulationDuration d) = True"
| "is_SetSimulationDuration c = False"

subsection \<open>The goroutines that call terminate\<close>

text \<open>
  The goroutines that can call terminate are the wait loop of CollectAllStatus, on its
  timer or on a signal, and the goroutines of SetPeekingMode: every call with
  \<open>true\<close> starts one, which sleeps and then calls terminate, and nothing stops it
  later, not even a call with \<open>false\<close>. A goroutine that has called terminate works
  through the steps of terminate one at a time and ends the way terminate ends; the
  other goroutines run until the process has exited. A schedule is the order in which
  triggers are seen and goroutines take their steps; how long a sleep lasts is not
  modelled, so the deadlines can pass in any order.
\<close>

datatype TerminationTrigger =
    Timer
  | OperatorSignal
  | PeekDeadline nat              \<comment> \<open>of the goroutine of the n-th call SetPeekingMode(true)\<close>

datatype goroutine = WaitLoop | PeekSleeper nat

datatype gstate =
    Waiting                               \<comment> \<open>in the select loop, or asleep\<close>
  | InTerminate "event list" "unit result" \<comment> \<open>inside terminate: steps still to do, its end\<close>
  | Finished                              \<comment> \<open>the goroutine has returned\<close>

record process =
  wait_loop :: gstate
  peek_sleepers :: "gstate list"
  done_events :: "event list"
  acted :: "TerminationTrigger list"      \<comment> \<open>the triggers that led to a call of terminate\<close>
  exited :: "int option"

datatype sched = Fire TerminationTrigger | Run goroutine

text \<open>The process when the runner is configured: \<open>timers\<close> holds the arguments of
  the peek goroutines started by the setter calls, as run_calls collects them.\<close>

definition init_process :: "int list \<Rightarrow> process" where
  "init_process timers =
     \<lparr> wait_loop = Waiting, peek_sleepers = map (\<lambda>x. Waiting) timers,
       done_events = [], acted = [], exited = None \<rparr>"

definition enter_terminate :: "env \<Rightarrow> Runner \<Rightarrow> gstate" where
  "enter_terminate env rn = InTerminate (fst (terminate env rn)) (snd (terminate env rn))"

fun exit_status :: "halt \<Rightarrow> int" where
  "exit_status (OsExit c) = c"
| "exit_status (LogFatal e) = 1"
| "exit_status (IndexOutOfRange i n) = 2"

text \<open>One step of a goroutine. \<open>resume\<close> is where the goroutine would go on if
  terminate returned: the wait loop to its select, a peek goroutine to its end.\<close>

definition run_goroutine :: "gstate \<Rightarrow> gstate \<Rightarrow> process \<Rightarrow> gstate \<times> process" where
  "run_goroutine g resume p =
     (case g of
        InTerminate (e # es) r \<Rightarrow> (InTerminate es r, p\<lparr>done_events := done_events p @ [e]\<rparr>)
      | InTerminate [] (Halt h) \<Rightarrow> (g, p\<lparr>exited := Some (exit_status h)\<rparr>)
      | InTerminate [] (Return u) \<Rightarrow> (resume, p)
      | _ \<Rightarrow> (g, p))"

fun step :: "env \<Rightarrow> Runner \<Rightarrow> process \<Rightarrow> sched \<Rightarrow> process" where
  "step env rn p (Fire (PeekDeadline i)) =
     (if exited p \<noteq> None then p
      else if i < length (peek_sleepers p) \<and> peek_sleepers p ! i = Waiting
        then p\<lparr>peek_sleepers := (peek_sleepers p)[i := enter_terminate env rn],
               acted := acted p @ [PeekDeadline i]\<rparr>
      else p)"
| "step env rn p (Fire t) =
     (if exited p \<noteq> None then p
      else if wait_loop p = Waiting
        then p\<lparr>wait_loop := enter_terminate env rn, acted := acted p @ [t]\<rparr>
      else p)"
| "step env rn p (Run WaitLoop) =
     (if exited p \<noteq> None then p
      else (case run_goroutine (wait_loop p) Waiting p of (g, p') \<Rightarrow> p'\<lparr>wait_loop := g\<rparr>))"
| "step env rn p (Run (PeekSleeper i)) =
     (if exited p \<noteq> None then p
      else if i < length (peek_sleepers p) then
        (case run_goroutine (peek_sleepers p ! i) Finished p of
           (g, p') \<Rightarrow> p'\<lparr>peek_sleepers := (peek_sleepers p')[i := g]\<rparr>)
      else p)"

definition run_schedule :: "env \<Rightarrow> Runner \<Rightarrow> int list \<Rightarrow> sched list \<Rightarrow> process" where
  "run_schedule env rn timers ss = foldl (step env rn) (init_process timers) ss"

text \<open>The triggers of a schedule, in order, and the triggers the wait loop serves.\<close>

fun fired :: "sched list \<Rightarrow> TerminationTrigger list" where
  "fired [] = []"
| "fired (Fire t # ss) = t # fired ss"
| "fired (Run g # ss) = fired ss"

fun is_wait_trigger :: "TerminationTrigger \<Rightarrow> bool" where
  "is_wait_trigger (PeekDeadline i) = False"
| "is_wait_trigger t = True"

subsection \<open>Reading traces\<close>

fun is_Split :: "event \<Rightarrow> bool" where
  "is_Split (Split ns k) = True"
| "is_Split e = False"

fun is_LogError :: "event \<Rightarrow> bool" where
  "is_LogError (LogError e) = True"
| "is_LogError e = False"

fun is_MoveChunk :: "event \<Rightarrow> bool" where
  "is_MoveChunk (MoveChunk ns m t) = True"
| "is_MoveChunk e = False"

fun is_CreateOne :: "event \<Rightarrow> bool" where
  "is_CreateOne (CreateOne k) = True"
| "is_CreateOne e = False"

subsection \<open>An invariant of the goroutines that call terminate\<close>

text \<open>A goroutine that is no longer waiting has entered terminate. The invariant ties
  the triggers acted upon to the goroutines: the wait loop has acted on one of its
  triggers exactly when it has entered, a peek deadline has been acted upon exactly when
  its goroutine has entered, no trigger was acted upon twice, and a goroutine inside
  terminate ends the way terminate ends.\<close>

fun entered :: "gstate \<Rightarrow> nat" where
  "entered Waiting = 0"
| "entered g = 1"

fun in_terminate_of :: "unit result \<Rightarrow> gstate \<Rightarrow> bool" where
  "in_terminate_of r Waiting = True"
| "in_terminate_of r (InTerminate es r') = (r' = r)"
| "in_terminate_of r Finished = False"

definition coordinator_inv :: "unit result \<Rightarrow> nat \<Rightarrow> process \<Rightarrow> bool" where
  "coordinator_inv r n p \<longleftrightarrow>
     length (peek_sleepers p) = n \<and>
     length (filter is_wait_trigger (acted p)) = entered (wait_loop p) \<and>
     (\<forall>i. PeekDeadline i \<in> set (acted p) \<longleftrightarrow> i < n \<and> peek_sleepers p ! i \<noteq> Waiting) \<and>
     distinct (acted p) \<and>
     in_terminate_of r (wait_loop p) \<and> list_all (in_terminate_of r) (peek_sleepers p)"

section \<open>Concrete clusters and runners\<close>

text \<open>A cluster whose primary shard is \<open>s0\<close>, with the shards \<open>ids\<close> and the chunks
  \<open>chunks\<close>, on which every command succeeds.\<close>

definition ok_shard_env :: "string list \<Rightarrow> (error + chunk) list \<Rightarrow> shard_env" where
  "ok_shard_env ids chunks =
     \<lparr> findPrimary = (\<lambda>d. Inr ''s0''), enableSharding = (\<lambda>d. None),
       shardCollection = (\<lambda>n. None), findShards = Inr (map Inr ids),
       runSplit = (\<lambda>k. None), findChunks = (\<lambda>n. Inr chunks),
       runMoveChunk = (\<lambda>m t. None) \<rparr>"

definition demo_conn :: ConnString where
  "demo_conn = \<lparr> cs_String = ''mongodb://localhost/'', Database = [],
      SSLCaFile = [], SSLClientCertificateKeyFile = [] \<rparr>"

text \<open>A runner on a sharded cluster, configured for an unattended run of three minutes
  on two connections.\<close>

definition demo_runner :: Runner where
  "demo_runner = (new_runner demo_conn)
      \<lparr>clusterType := Sharded, auto := True, conns := 2, duration := 3,
       uriList := [''mongodb://a/'', ''mongodb://b/''], uri := ''mongodb://b/''\<rparr>"

text \<open>An environment in which every call succeeds, around a given cluster.\<close>

definition ok_env :: "shard_env \<Rightarrow> env" where
  "ok_env se =
     \<lparr> stdin_text = ''y'' @ [CHR 0x0A], tdoc_Indexes = [], createOne = (\<lambda>k. None), shard = se,
       dropCollection = None, dropDatabase = None, populateData = (\<lambda>t. None),
       simulate = (\<lambda>d t. None), newMongoClient = (\<lambda>u. None),
       printServerStatus = (\<lambda>u. Inr (u @ ''.json'')),
       marshal = (\<lambda>m. Inr ''{}''), fileTimestamp = ''2020-01-01T000000'' \<rparr>"



text \<open>A topology probe that reports the cluster type \<open>c\<close> and the shards
  \<open>shards\<close>.\<close>

definition demo_topo :: "string \<Rightarrow> shard_doc list \<Rightarrow> topo_env" where
  "demo_topo c shards =
     \<lparr> cluster = c, getShards = Inr shards,
       shardURI = (\<lambda>s cs. Inr (''mongodb://'' @ shard_host s @ ''/'')) \<rparr>"

section \<open>Properties\<close>

subsection \<open>Helper facts\<close>

lemma fst_after [simp]: "fst (after tr p) = tr @ fst p"
  by (cases p) simp

lemma snd_after [simp]: "snd (after tr p) = snd p"
  by (cases p) simp

lemma length_shardKeys: "length shardKeys = 26"
  by (simp add: shardKeys_def)

lemma shardKeys_nth: "shardKeys ! 7 = ''H''" "shardKeys ! 14 = ''O''" "shardKeys ! 21 = ''V''"
  by (simp_all add: shardKeys_def)

lemma collect_shards_no_split: "filter is_Split (fst (collect_shards p ds)) = []"
  by (induction p ds rule: collect_shards.induct) (auto split: prod.splits)

lemma move_loop_no_split: "filter is_Split (fst (move_loop env ns shards i cs)) = []"
  by (induction env ns shards i cs rule: move_loop.induct) (auto split: prod.splits option.splits)

lemma split_loop_three:
  assumes "\<And>k. runSplit env k = None"
  shows "split_loop env ns 7 [0 ..< 3] = ([Split ns ''H'', Split ns ''O'', Split ns ''V''], Return None)"
  using assms by (simp add: upt_rec length_shardKeys shardKeys_nth)

text \<open>The loop of terminate over the URIs, in closed form.\<close>

lemma collect_loop_closed:
  "collect_loop env us fs =
     (concat (map (\<lambda>u. NewMongoClient u #
                 (case newMongoClient env u of
                    Some e \<Rightarrow> [LogError e]
                  | None \<Rightarrow> PrintServerStatus u #
                      (case printServerStatus env u of
                         Inl e \<Rightarrow> [LogError e]
                       | Inr f \<Rightarrow> [])))
          us),
      fs @ concat (map (\<lambda>u. case newMongoClient env u of
                              Some e \<Rightarrow> []
                            | None \<Rightarrow>
                                (case printServerStatus env u of
                                   Inl e \<Rightarrow> []
                                 | Inr f \<Rightarrow> [f]))
            us))"
  by (induction us arbitrary: fs) (simp_all split: option.splits sum.splits)











lemma index_loop_returns: "\<exists>e. snd (index_loop env docs) = Return e"
  by (induction docs) (auto simp: Let_def split: option.splits)

lemma create_not_move: "is_CreateOne x \<Longrightarrow> is_MoveChunk x \<Longrightarrow> False"
  by (cases x) simp_all

lemma create_not_split: "is_CreateOne x \<Longrightarrow> is_Split x \<Longrightarrow> False"
  by (cases x) simp_all



lemma Cleanup_events:
  "x \<in> set (fst (Cleanup env rn)) \<Longrightarrow> \<not> is_MoveChunk x \<and> \<not> is_Split x \<and> \<not> is_CreateOne x"
  by (auto simp: Cleanup_def split: if_splits option.splits)

lemma confirm_events: "x \<in> set (fst (confirm env rn)) \<Longrightarrow> x = Prompt"
  by (auto simp: confirm_def Let_def split: if_splits)



lemma createIndexes_first:
  "\<exists>tr. fst (createIndexes env rn docs) = CreateOne [(''_search'', 1)] # tr"
  by (simp add: createIndexes_def)

lemma switch_db_fields:
  "duration (switch_db rn) = duration rn" "conns (switch_db rn) = conns rn"
  "simOnly (switch_db rn) = simOnly rn" "drop_mode (switch_db rn) = drop_mode rn"
  "peek (switch_db rn) = peek rn"
  by (simp_all add: switch_db_def)

lemma createIndexes_returns:
  "clusterType rn \<noteq> Sharded \<Longrightarrow> \<exists>e. snd (createIndexes env rn docs) = Return e"
  using index_loop_returns [of env docs]
  by (auto simp: createIndexes_def split: option.splits)

lemma switch_db_clusterType: "clusterType (switch_db rn) = clusterType rn"
  by (simp add: switch_db_def)

text \<open>The URIs of the shards.\<close>

lemma GetAllShardURIs_length:
  "GetAllShardURIs derive shards cs = (uris, None) \<Longrightarrow> length uris = length shards"
  by (induction shards arbitrary: uris) (auto split: sum.splits prod.splits option.splits)

lemma GetAllShardURIs_each:
  "GetAllShardURIs derive shards cs = (uris, None) \<Longrightarrow>
     map Inr uris = map (\<lambda>s. derive s cs) shards"
  by (induction shards arbitrary: uris) (auto split: sum.splits prod.splits option.splits)

text \<open>Sequences of setter calls.\<close>

lemma apply_call_timers:
  "snd (foldl apply_call (rn, ts) cs) = ts @ snd (foldl apply_call (rn, []) cs) \<and>
   fst (foldl apply_call (rn, ts) cs) = fst (foldl apply_call (rn, []) cs)"
proof (induction cs arbitrary: rn ts)
  case Nil
  show ?case by simp
next
  case (Cons c cs)
  obtain rn' ts' where s: "apply_call (rn, []) c = (rn', ts')"
    by (cases "apply_call (rn, []) c")
  have s': "apply_call (rn, ts) c = (rn', ts @ ts')"
    using s by (cases c) (auto simp: SetPeekingMode_def Let_def split: if_splits)
  from Cons.IH [of rn' "ts @ ts'"] Cons.IH [of rn' ts'] s s' show ?case
    by simp
qed

lemma run_calls_append:
  "run_calls (cs @ ds) rn =
     (fst (run_calls ds (fst (run_calls cs rn))),
      snd (run_calls cs rn) @ snd (run_calls ds (fst (run_calls cs rn))))"
proof -
  obtain rn' ts where s: "foldl apply_call (rn, []) cs = (rn', ts)"
    by (cases "foldl apply_call (rn, []) cs")
  have "foldl apply_call (rn, []) (cs @ ds) = foldl apply_call (rn', ts) ds"
    using s by simp
  with apply_call_timers [of rn' ts ds] s show ?thesis
    by (simp add: run_calls_def prod_eq_iff del: foldl_append)
qed

lemma apply_call_duration:
  "\<not> is_SetSimulationDuration c \<Longrightarrow> duration (fst (apply_call (rn, ts) c)) = duration rn"
  by (cases c)
    (auto simp: SetCollection_def SetTPS_def SetAutoMode_def SetTemplateFilename_def
       SetVerbose_def SetPeekingMode_def SetDropFirstMode_def SetNumberConnections_def
       SetTransactionTemplateFilename_def SetSimOnlyMode_def Let_def)

lemma foldl_duration:
  "\<not> list_ex is_SetSimulationDuration cs \<Longrightarrow>
     duration (fst (foldl apply_call (rn, ts) cs)) = duration rn"
proof (induction cs arbitrary: rn ts)
  case Nil
  show ?case by simp
next
  case (Cons c cs)
  obtain rn' ts' where s: "apply_call (rn, ts) c = (rn', ts')"
    by (cases "apply_call (rn, ts) c")
  from Cons.prems have nc: "\<not> is_SetSimulationDuration c" and ncs: "\<not> list_ex is_SetSimulationDuration cs"
    by simp_all
  from apply_call_duration [OF nc, of rn ts] s have "duration rn' = duration rn" by simp
  with Cons.IH [OF ncs, of rn' ts'] s show ?case by simp
qed

lemma NewRunner_duration:
  "NewRunner env tenv cs = Return (Some rn, err) \<Longrightarrow> duration rn = 0"
  by (auto simp: NewRunner_def Let_def set_uri_def new_runner_def
      split: sum.splits prod.splits option.splits if_splits)

text \<open>The invariant of the goroutines.\<close>

lemma terminate_exits: "snd (terminate env rn) = Halt (OsExit 0)"
  by (simp add: terminate_def Let_def case_prod_unfold)

lemma entered_le: "entered g \<le> 1"
  by (cases g) simp_all

lemma entered_zero: "entered g = 0 \<longleftrightarrow> g = Waiting"
  by (cases g) simp_all

lemma init_inv: "coordinator_inv r (length timers) (init_process timers)"
  by (simp add: coordinator_inv_def init_process_def list_all_iff)

lemma peek_not_wait: "\<not> is_wait_trigger (PeekDeadline i)"
  by simp

lemma wait_trigger_cases: "is_wait_trigger t \<Longrightarrow> t = Timer \<or> t = OperatorSignal"
  by (cases t) simp_all

lemma fire_wait_inv:
  assumes te: "snd (terminate env rn) = Halt h"
    and inv: "coordinator_inv (Halt h) n p" and w: "is_wait_trigger t"
  shows "coordinator_inv (Halt h) n (step env rn p (Fire t))"
proof -
  have st: "step env rn p (Fire t) =
     (if exited p \<noteq> None then p
      else if wait_loop p = Waiting
        then p\<lparr>wait_loop := enter_terminate env rn, acted := acted p @ [t]\<rparr>
      else p)"
    using w by (cases t) simp_all
  show ?thesis
  proof (cases "exited p = None \<and> wait_loop p = Waiting")
    case False
    with st inv show ?thesis by auto
  next
    case True
    from inv True have none: "filter is_wait_trigger (acted p) = []"
      by (simp add: coordinator_inv_def)
    then have notin: "t \<notin> set (acted p)"
      using w by (auto simp: filter_empty_conv)
    have nopeek: "t \<noteq> PeekDeadline i" for i
      using w by auto
    from inv True st w none notin nopeek te show ?thesis
      by (auto simp: coordinator_inv_def enter_terminate_def)
  qed
qed

lemma fire_peek_inv:
  assumes te: "snd (terminate env rn) = Halt h"
    and inv: "coordinator_inv (Halt h) n p"
  shows "coordinator_inv (Halt h) n (step env rn p (Fire (PeekDeadline i)))"
proof (cases "exited p = None \<and> i < length (peek_sleepers p) \<and> peek_sleepers p ! i = Waiting")
  case False
  with inv show ?thesis by auto
next
  case True
  from inv have len: "length (peek_sleepers p) = n"
    and mem: "\<And>j. PeekDeadline j \<in> set (acted p) \<longleftrightarrow> j < n \<and> peek_sleepers p ! j \<noteq> Waiting"
    and dist: "distinct (acted p)"
    and wl: "length (filter is_wait_trigger (acted p)) = entered (wait_loop p)"
    and ok1: "in_terminate_of (Halt h) (wait_loop p)"
    and ok2: "list_all (in_terminate_of (Halt h)) (peek_sleepers p)"
    by (simp_all add: coordinator_inv_def)
  let ?p' = "p\<lparr>peek_sleepers := (peek_sleepers p)[i := enter_terminate env rn],
               acted := acted p @ [PeekDeadline i]\<rparr>"
  have st: "step env rn p (Fire (PeekDeadline i)) = ?p'"
    using True by simp
  have notin: "PeekDeadline i \<notin> set (acted p)"
    using mem [of i] True by simp
  have m': "PeekDeadline j \<in> set (acted ?p') \<longleftrightarrow> j < n \<and> peek_sleepers ?p' ! j \<noteq> Waiting" for j
    using mem [of j] True len by (cases "j = i") (auto simp: enter_terminate_def nth_list_update)
  have ok2': "list_all (in_terminate_of (Halt h)) (peek_sleepers ?p')"
    using ok2 te by (auto simp: list_all_iff enter_terminate_def dest: subsetD [OF set_update_subset_insert])
  show ?thesis
    unfolding st coordinator_inv_def
    using len wl dist notin ok1 ok2' m' by simp
qed

lemma run_goroutine_inv:
  assumes g: "in_terminate_of (Halt h) g" and r: "run_goroutine g resume p = (g', p')"
  shows "in_terminate_of (Halt h) g' \<and> entered g' = entered g \<and> (g' = Waiting \<longleftrightarrow> g = Waiting) \<and>
         acted p' = acted p \<and> peek_sleepers p' = peek_sleepers p \<and> wait_loop p' = wait_loop p"
  using g r
  by (cases g) (auto simp: run_goroutine_def split: list.splits result.splits)

lemma run_wait_inv:
  assumes inv: "coordinator_inv (Halt h) n p"
  shows "coordinator_inv (Halt h) n (step env rn p (Run WaitLoop))"
proof (cases "exited p = None")
  case False
  with inv show ?thesis by auto
next
  case True
  obtain g' p' where r: "run_goroutine (wait_loop p) Waiting p = (g', p')"
    by (cases "run_goroutine (wait_loop p) Waiting p")
  from inv have "in_terminate_of (Halt h) (wait_loop p)"
    by (simp add: coordinator_inv_def)
  from run_goroutine_inv [OF this r] inv True r show ?thesis
    by (simp add: coordinator_inv_def)
qed

lemma run_peek_inv:
  assumes inv: "coordinator_inv (Halt h) n p"
  shows "coordinator_inv (Halt h) n (step env rn p (Run (PeekSleeper i)))"
proof (cases "exited p = None \<and> i < length (peek_sleepers p)")
  case False
  with inv show ?thesis by auto
next
  case True
  obtain g' p' where r: "run_goroutine (peek_sleepers p ! i) Finished p = (g', p')"
    by (cases "run_goroutine (peek_sleepers p ! i) Finished p")
  from inv have len: "length (peek_sleepers p) = n"
    and mem: "\<And>j. PeekDeadline j \<in> set (acted p) \<longleftrightarrow> j < n \<and> peek_sleepers p ! j \<noteq> Waiting"
    and ok2: "list_all (in_terminate_of (Halt h)) (peek_sleepers p)"
    by (simp_all add: coordinator_inv_def)
  from ok2 True have "in_terminate_of (Halt h) (peek_sleepers p ! i)"
    by (simp add: list_all_length)
  note rg = run_goroutine_inv [OF this r]
  let ?q = "p'\<lparr>peek_sleepers := (peek_sleepers p')[i := g']\<rparr>"
  have st: "step env rn p (Run (PeekSleeper i)) = ?q"
    using True r by simp
  have m': "PeekDeadline j \<in> set (acted ?q) \<longleftrightarrow> j < n \<and> peek_sleepers ?q ! j \<noteq> Waiting" for j
    using mem [of j] rg True len by (cases "j = i") (auto simp: nth_list_update)
  have ok2': "list_all (in_terminate_of (Halt h)) (peek_sleepers ?q)"
    using ok2 rg by (auto simp: list_all_iff dest: subsetD [OF set_update_subset_insert])
  show ?thesis
    unfolding st coordinator_inv_def
    using inv rg len m' ok2' by (simp add: coordinator_inv_def)
qed

lemma step_inv:
  assumes te: "snd (terminate env rn) = Halt h" and inv: "coordinator_inv (Halt h) n p"
  shows "coordinator_inv (Halt h) n (step env rn p s)"
proof (cases s)
  case (Fire t)
  show ?thesis
  proof (cases t)
    case (PeekDeadline i)
    with Fire fire_peek_inv [OF te inv] show ?thesis by simp
  next
    case Timer
    with Fire fire_wait_inv [OF te inv, of Timer] show ?thesis by simp
  next
    case OperatorSignal
    with Fire fire_wait_inv [OF te inv, of OperatorSignal] show ?thesis by simp
  qed
next
  case (Run g)
  show ?thesis
  proof (cases g)
    case WaitLoop
    with Run run_wait_inv [OF inv] show ?thesis by simp
  next
    case (PeekSleeper i)
    with Run run_peek_inv [OF inv] show ?thesis by simp
  qed
qed

lemma foldl_step_inv:
  "snd (terminate env rn) = Halt h \<Longrightarrow> coordinator_inv (Halt h) n p \<Longrightarrow>
     coordinator_inv (Halt h) n (foldl (step env rn) p ss)"
  by (induction ss arbitrary: p) (simp_all add: step_inv)

lemma run_schedule_inv:
  "coordinator_inv (Halt (OsExit 0)) (length timers) (run_schedule env rn timers ss)"
  unfolding run_schedule_def
  by (rule foldl_step_inv [OF terminate_exits init_inv])

lemma step_exited: "exited p \<noteq> None \<Longrightarrow> step env rn p s = p"
proof (cases s)
  case (Fire t)
  assume "exited p \<noteq> None"
  then show ?thesis using Fire by (cases t) auto
next
  case (Run g)
  assume "exited p \<noteq> None"
  then show ?thesis using Run by (cases g) auto
qed

lemma foldl_step_exited: "exited p \<noteq> None \<Longrightarrow> foldl (step env rn) p ss = p"
  by (induction ss) (simp_all add: step_exited)

lemma run_schedule_snoc:
  "run_schedule env rn timers (ss @ [s]) = step env rn (run_schedule env rn timers ss) s"
  by (simp add: run_schedule_def)

lemma fired_append: "fired (xs @ ys) = fired xs @ fired ys"
  by (induction xs rule: fired.induct) simp_all

lemma acted_bound:
  assumes inv: "coordinator_inv r n p"
  shows "length (acted p) \<le> 1 + n"
proof -
  let ?w = "filter is_wait_trigger (acted p)"
  let ?k = "filter (\<lambda>t. \<not> is_wait_trigger t) (acted p)"
  from inv have w: "length ?w \<le> 1"
    using entered_le [of "wait_loop p"] by (simp add: coordinator_inv_def)
  from inv have dist: "distinct (acted p)"
    and mem: "\<And>i. PeekDeadline i \<in> set (acted p) \<Longrightarrow> i < n"
    by (simp_all add: coordinator_inv_def)
  have sub: "set ?k \<subseteq> PeekDeadline ` {..<n}"
  proof
    fix t assume t: "t \<in> set ?k"
    then have nw: "\<not> is_wait_trigger t" and ta: "t \<in> set (acted p)" by simp_all
    from nw obtain i where ti: "t = PeekDeadline i" by (cases t) simp_all
    with ta mem [of i] show "t \<in> PeekDeadline ` {..<n}" by auto
  qed
  have "distinct ?k"
    using dist by (rule distinct_filter)
  then have "length ?k = card (set ?k)"
    by (rule distinct_card [symmetric])
  also have "\<dots> \<le> card (PeekDeadline ` {..<n})"
    using sub by (intro card_mono) simp_all
  also have "\<dots> \<le> n"
    using card_image_le [of "{..<n}" PeekDeadline] by simp
  finally have k: "length ?k \<le> n" .
  have "length (acted p) = length ?w + length ?k"
    using sum_length_filter_compl [of is_wait_trigger "acted p"] by simp
  with w k show ?thesis by linarith
qed

lemma acted_run_unchanged:
  "acted (step env rn p (Run g)) = acted p"
proof (cases g)
  case WaitLoop
  then show ?thesis
    by (simp add: run_goroutine_def split: gstate.splits list.splits result.splits)
next
  case (PeekSleeper i)
  then show ?thesis
    by (simp add: run_goroutine_def split: gstate.splits list.splits result.splits)
qed

lemma fire_wait_acted:
  "is_wait_trigger t \<Longrightarrow> exited p = None \<Longrightarrow>
     acted (step env rn p (Fire t)) = (if wait_loop p = Waiting then acted p @ [t] else acted p)"
  by (cases t) simp_all

lemma fire_peek_acted:
  "exited p = None \<Longrightarrow>
     acted (step env rn p (Fire (PeekDeadline i))) =
       (if i < length (peek_sleepers p) \<and> peek_sleepers p ! i = Waiting
        then acted p @ [PeekDeadline i] else acted p)"
  by simp

lemma take1_snoc: "xs \<noteq> [] \<Longrightarrow> take 1 (xs @ [x]) = take 1 xs"
  by (cases xs) simp_all

lemma acted_exact:
  "exited (run_schedule env rn timers ss) = None \<Longrightarrow>
     filter is_wait_trigger (acted (run_schedule env rn timers ss)) =
       take 1 (filter is_wait_trigger (fired ss)) \<and>
     (\<forall>i. PeekDeadline i \<in> set (acted (run_schedule env rn timers ss)) \<longleftrightarrow>
          i < length timers \<and> PeekDeadline i \<in> set (fired ss))"
proof (induction ss rule: rev_induct)
  case Nil
  show ?case by (simp add: run_schedule_def init_process_def)
next
  case (snoc s ss)
  define p where "p = run_schedule env rn timers ss"
  define q where "q = run_schedule env rn timers (ss @ [s])"
  define n where "n = length timers"
  have st: "q = step env rn p s"
    unfolding p_def q_def by (rule run_schedule_snoc)
  have exq: "exited q = None"
    using snoc.prems by (simp add: q_def)
  have ex: "exited p = None"
  proof (rule ccontr)
    assume "exited p \<noteq> None"
    with step_exited [of p env rn s] st exq show False by simp
  qed
  have IH1: "filter is_wait_trigger (acted p) = take 1 (filter is_wait_trigger (fired ss))"
    and IH2: "\<And>i. PeekDeadline i \<in> set (acted p) \<longleftrightarrow> i < n \<and> PeekDeadline i \<in> set (fired ss)"
    using snoc.IH ex by (simp_all add: p_def n_def)
  have inv: "coordinator_inv (Halt (OsExit 0)) n p"
    unfolding p_def n_def by (rule run_schedule_inv)
  then have len: "length (peek_sleepers p) = n"
    and wl: "length (filter is_wait_trigger (acted p)) = entered (wait_loop p)"
    and mem: "\<And>j. PeekDeadline j \<in> set (acted p) \<longleftrightarrow> j < n \<and> peek_sleepers p ! j \<noteq> Waiting"
    by (simp_all add: coordinator_inv_def)
  have goal: "filter is_wait_trigger (acted q) = take 1 (filter is_wait_trigger (fired (ss @ [s]))) \<and>
     (\<forall>i. PeekDeadline i \<in> set (acted q) \<longleftrightarrow> i < n \<and> PeekDeadline i \<in> set (fired (ss @ [s])))"
  proof (cases s)
    case (Run g)
    have a: "acted q = acted p"
      using st Run acted_run_unchanged by simp
    have f: "fired (ss @ [s]) = fired ss"
      using Run by (simp add: fired_append)
    show ?thesis
      unfolding a f using IH1 IH2 by simp
  next
    case (Fire t)
    have f: "fired (ss @ [s]) = fired ss @ [t]"
      using Fire by (simp add: fired_append)
    show ?thesis
    proof (cases "is_wait_trigger t")
      case True
      have nopeek: "PeekDeadline i \<noteq> t" for i
        using True by auto
      show ?thesis
      proof (cases "wait_loop p = Waiting")
        case w: True
        have a: "acted q = acted p @ [t]"
          using st Fire fire_wait_acted [OF True ex] w by simp
        from wl w have e: "filter is_wait_trigger (acted p) = []" by simp
        with IH1 have e2: "filter is_wait_trigger (fired ss) = []" by simp
        show ?thesis
          unfolding a f using True e e2 IH2 nopeek by simp
      next
        case w: False
        have a: "acted q = acted p"
          using st Fire fire_wait_acted [OF True ex] w by simp
        from wl w have "length (filter is_wait_trigger (acted p)) = 1"
          by (cases "wait_loop p") simp_all
        with IH1 have ne: "filter is_wait_trigger (fired ss) \<noteq> []" by auto
        show ?thesis
          unfolding a f using True IH1 IH2 nopeek take1_snoc [OF ne] by simp
      qed
    next
      case False
      then obtain i where t: "t = PeekDeadline i" by (cases t) simp_all
      show ?thesis
      proof (cases "i < n \<and> peek_sleepers p ! i = Waiting")
        case b: True
        have a: "acted q = acted p @ [PeekDeadline i]"
          using st Fire t fire_peek_acted [OF ex] b len by simp
        show ?thesis
          unfolding a f t using IH1 IH2 b by auto
      next
        case b: False
        have a: "acted q = acted p"
          using st Fire t fire_peek_acted [OF ex] b len by auto
        have c: "PeekDeadline i \<in> set (acted p) \<longleftrightarrow> i < n"
          using mem [of i] b by auto
        show ?thesis
          unfolding a f t using IH1 IH2 c by auto
      qed
    qed
  qed
  then show ?case by (simp add: q_def n_def)
qed

lemma step_exit_code:
  assumes inv: "coordinator_inv (Halt h) n p"
    and ex: "exited p = None \<or> exited p = Some (exit_status h)"
  shows "exited (step env rn p s) = None \<or> exited (step env rn p s) = Some (exit_status h)"
proof (cases "exited p = None")
  case False
  with ex step_exited [of p env rn s] show ?thesis by simp
next
  case True
  from inv have ok1: "in_terminate_of (Halt h) (wait_loop p)"
    and ok2: "list_all (in_terminate_of (Halt h)) (peek_sleepers p)"
    by (simp_all add: coordinator_inv_def)
  have rg: "exited (snd (run_goroutine g resume p)) = None \<or>
            exited (snd (run_goroutine g resume p)) = Some (exit_status h)"
    if "in_terminate_of (Halt h) g" for g resume
    using that True
    by (cases g) (auto simp: run_goroutine_def split: list.splits result.splits)
  show ?thesis
  proof (cases s)
    case (Fire t)
    with True show ?thesis by (cases t) auto
  next
    case (Run g)
    show ?thesis
    proof (cases g)
      case WaitLoop
      with Run True rg [OF ok1, of Waiting] show ?thesis
        by (auto simp: case_prod_unfold)
    next
      case (PeekSleeper i)
      show ?thesis
      proof (cases "i < length (peek_sleepers p)")
        case False
        with Run PeekSleeper True show ?thesis by simp
      next
        case len: True
        with ok2 have "in_terminate_of (Halt h) (peek_sleepers p ! i)"
          by (simp add: list_all_length)
        from rg [OF this, of Finished] Run PeekSleeper True len show ?thesis
          by (auto simp: case_prod_unfold)
      qed
    qed
  qed
qed

lemma foldl_exit_code:
  assumes te: "snd (terminate env rn) = Halt h"
  shows "coordinator_inv (Halt h) n p \<Longrightarrow>
     exited p = None \<or> exited p = Some (exit_status h) \<Longrightarrow>
     exited (foldl (step env rn) p ss) = None \<or>
     exited (foldl (step env rn) p ss) = Some (exit_status h)"
proof (induction ss arbitrary: p)
  case Nil
  then show ?case by simp
next
  case (Cons s ss)
  from Cons.IH [OF step_inv [OF te Cons.prems(1)] step_exit_code [OF Cons.prems]]
  show ?case by simp
qed

lemma run_schedule_exit_code:
  "exited (run_schedule env rn timers ss) = None \<or>
   exited (run_schedule env rn timers ss) = Some 0"
  using foldl_exit_code [OF terminate_exits init_inv, of timers env rn ss]
  by (simp add: run_schedule_def init_process_def)


subsection \<open>The split boundaries\<close>

text \<open>
  C3. The claim: for every number \<open>m \<ge> 1\<close> of non-primary shards the \<open>m\<close> boundaries
  \<open>(i+1) * divider\<close> lie within the 26 keys. With seven non-primary shards the divider is
  \<open>1 + 26 div 8 = 4\<close>; six splits are issued, at E, I, M, Q, U and Y, and the seventh
  reads \<open>shardKeys[28]\<close>: splitChunks panics with an index out of range.
\<close>

theorem C3_seven_shards_index_out_of_range:
  "splitChunks (ok_shard_env [''s0'', ''s1'', ''s2'', ''s3'', ''s4'', ''s5'', ''s6'', ''s7''] [])
     demo_runner =
   ([FindPrimary ''_KEYHOLE_88800'', Log ''Sharding collection'',
     EnableSharding ''_KEYHOLE_88800'', ShardCollection ''_KEYHOLE_88800.examples'',
     Log ''splitting chunks...'', FindShards,
     Split ''_KEYHOLE_88800.examples'' ''E'', Split ''_KEYHOLE_88800.examples'' ''I'',
     Split ''_KEYHOLE_88800.examples'' ''M'', Split ''_KEYHOLE_88800.examples'' ''Q'',
     Split ''_KEYHOLE_88800.examples'' ''U'', Split ''_KEYHOLE_88800.examples'' ''Y''],
    Halt (IndexOutOfRange 28 26))"
  by code_simp

text \<open>
  C5. With exactly three non-primary shards the divider is 7 and, when the commands
  before the splits and the splits themselves succeed, the splits splitChunks issues
  are those at the keys of index 7, 14 and 21, the letters H, O and V, in this order.
\<close>

theorem C5_three_shards_split_at_H_O_V:
  assumes "findPrimary env (dbName rn) = Inr primary"
    and "enableSharding env (dbName rn) = None"
    and "shardCollection env (dbName rn @ ''.'' @ collectionName rn) = None"
    and "findShards env = Inr docs"
    and "length (snd (collect_shards primary docs)) = 3"
    and "\<And>k. runSplit env k = None"
  shows "divider_of (snd (collect_shards primary docs)) = 7 \<and>
         [shardKeys ! (1 * 7), shardKeys ! (2 * 7), shardKeys ! (3 * 7)] = [''H'', ''O'', ''V''] \<and>
         filter is_Split (fst (splitChunks env rn)) =
           [Split (dbName rn @ ''.'' @ collectionName rn) ''H'',
            Split (dbName rn @ ''.'' @ collectionName rn) ''O'',
            Split (dbName rn @ ''.'' @ collectionName rn) ''V'']"
proof -
  obtain tr shards where cs: "collect_shards primary docs = (tr, shards)"
    by (cases "collect_shards primary docs")
  with assms(5) have len: "length shards = 3" by simp
  have d: "divider_of shards = 7"
    by (simp add: divider_of_def length_shardKeys len)
  have tr: "filter is_Split tr = []"
    using collect_shards_no_split [of primary docs] cs by simp
  have ml: "filter is_Split x = []"
    if "move_loop env ns shards 0 chunks = (x, r)" for ns chunks x r
    using move_loop_no_split [of env ns shards 0 chunks] that by simp
  have keys: "[shardKeys ! (1 * 7), shardKeys ! (2 * 7), shardKeys ! (3 * 7)] = [''H'', ''O'', ''V'']"
    by (simp add: shardKeys_nth)
  have "filter is_Split (fst (splitChunks env rn)) =
           [Split (dbName rn @ ''.'' @ collectionName rn) ''H'',
            Split (dbName rn @ ''.'' @ collectionName rn) ''O'',
            Split (dbName rn @ ''.'' @ collectionName rn) ''V'']"
    using assms(1-4) cs d len tr ml split_loop_three [OF assms(6)]
    by (auto simp: splitChunks_def Let_def split: sum.splits prod.splits result.splits)
  with d cs keys show ?thesis by simp
qed

theorem C5_witness:
  "findPrimary (ok_shard_env [''s0'', ''s1'', ''s2'', ''s3''] []) (dbName demo_runner) = Inr ''s0'' \<and>
   length (snd (collect_shards ''s0'' (map Inr [''s0'', ''s1'', ''s2'', ''s3'']))) = 3 \<and>
   (\<forall>k. runSplit (ok_shard_env [''s0'', ''s1'', ''s2'', ''s3''] []) k = None) \<and>
   divider_of (snd (collect_shards ''s0'' (map Inr [''s0'', ''s1'', ''s2'', ''s3'']))) = 7 \<and>
   filter is_Split (fst (splitChunks (ok_shard_env [''s0'', ''s1'', ''s2'', ''s3''] []) demo_runner)) =
     [Split ''_KEYHOLE_88800.examples'' ''H'', Split ''_KEYHOLE_88800.examples'' ''O'',
      Split ''_KEYHOLE_88800.examples'' ''V'']"
proof -
  let ?E = "ok_shard_env [''s0'', ''s1'', ''s2'', ''s3''] []"
  have h1: "findPrimary ?E (dbName demo_runner) = Inr ''s0''"
    by (simp add: ok_shard_env_def)
  have h2: "enableSharding ?E (dbName demo_runner) = None"
    by (simp add: ok_shard_env_def)
  have h3: "shardCollection ?E (dbName demo_runner @ ''.'' @ collectionName demo_runner) = None"
    by (simp add: ok_shard_env_def)
  have h4: "findShards ?E = Inr (map Inr [''s0'', ''s1'', ''s2'', ''s3''])"
    by (simp add: ok_shard_env_def)
  have h5: "length (snd (collect_shards ''s0'' (map Inr [''s0'', ''s1'', ''s2'', ''s3'']))) = 3"
    by simp
  have h6: "\<And>k. runSplit ?E k = None"
    by (simp add: ok_shard_env_def)
  have names: "dbName demo_runner = ''_KEYHOLE_88800''" "collectionName demo_runner = ''examples''"
    by (simp_all add: demo_runner_def new_runner_def demo_conn_def KeyholeDB_def ExamplesCollection_def)
  show ?thesis
    using C5_three_shards_split_at_H_O_V [OF h1 h2 h3 h4 h5 h6] h1 h5 h6 names by simp
qed

subsection \<open>The walk over the chunks\<close>

text \<open>
  C6. The claim: for every chunk list and every non-empty list of non-primary shards the
  walk stops once every shard has received a chunk. The check \<open>i == len(shards)\<close>
  stands only after a move. With the single non-primary shard \<open>s1\<close> and the chunks
  \<open>[O on s1, MinKey on s0]\<close>, the first chunk is found on \<open>s1\<close>, the pointer goes to 1
  with no check, and the second chunk reads \<open>shards[1]\<close>: the walk panics with an index
  out of range instead of stopping.
\<close>

theorem C6_walk_past_last_shard_panics:
  "move_loop (ok_shard_env [''s0'', ''s1''] [Inr (Chunk ''s1'' ''O''), Inr (Chunk ''s0'' ''MinKey'')])
     ''_KEYHOLE_88800.examples'' [''s1''] 0
     [Inr (Chunk ''s1'' ''O''), Inr (Chunk ''s0'' ''MinKey'')] =
     ([], Halt (IndexOutOfRange 1 1)) \<and>
   snd (splitChunks
     (ok_shard_env [''s0'', ''s1''] [Inr (Chunk ''s1'' ''O''), Inr (Chunk ''s0'' ''MinKey'')])
     demo_runner) = Halt (IndexOutOfRange 1 1)"
  by code_simp

subsection \<open>Cleanup\<close>

text \<open>
  C9. Scenario B sets dropFirst and the default database and leaves every other option
  as NewRunner sets it, so peek mode and simulateOnly are off. For every such runner,
  Cleanup drops the examples collection first, if and only if the collection name is
  the default, then drops the database, then sleeps one second and returns; a failed
  drop is logged, right after the drop, and changes nothing else. The trace is exactly
  this, the last event is the sleep, and Cleanup returns the result of the database
  drop.
\<close>

theorem C9_cleanup_drops_then_sleeps:
  assumes "\<not> peek rn" and "\<not> simOnly rn" and "dbName rn = KeyholeDB"
  shows "fst (Cleanup env rn) =
       (if collectionName rn = ExamplesCollection
        then [Log ''dropping collection'', DropCollection KeyholeDB ExamplesCollection]
             @ (case dropCollection env of Some e \<Rightarrow> [LogError e] | None \<Rightarrow> [])
        else [])
       @ [Log ''dropping temp database'', DropDatabase KeyholeDB]
       @ (case dropDatabase env of Some e \<Rightarrow> [LogError e] | None \<Rightarrow> [])
       @ [Sleep 1000]
     \<and> filter (\<lambda>e. \<not> is_LogError e) (fst (Cleanup env rn)) =
       (if collectionName rn = ExamplesCollection
        then [Log ''dropping collection'', DropCollection KeyholeDB ExamplesCollection]
        else [])
       @ [Log ''dropping temp database'', DropDatabase KeyholeDB, Sleep 1000]
     \<and> last (fst (Cleanup env rn)) = Sleep 1000
     \<and> snd (Cleanup env rn) = Return (dropDatabase env)"
  using assms by (simp add: Cleanup_def split: option.splits)

theorem C9_witness:
  "drop_mode (SetDropFirstMode True (new_runner demo_conn)) \<and>
   \<not> peek (SetDropFirstMode True (new_runner demo_conn)) \<and>
   \<not> simOnly (SetDropFirstMode True (new_runner demo_conn)) \<and>
   dbName (SetDropFirstMode True (new_runner demo_conn)) = KeyholeDB \<and>
   fst (Cleanup (ok_env (ok_shard_env [] [])) (SetDropFirstMode True (new_runner demo_conn))) =
     [Log ''dropping collection'', DropCollection ''_KEYHOLE_88800'' ''examples'',
      Log ''dropping temp database'', DropDatabase ''_KEYHOLE_88800'', Sleep 1000]"
proof -
  let ?R = "SetDropFirstMode True (new_runner demo_conn)"
  have h0: "drop_mode ?R" and h1: "\<not> peek ?R" and h2: "\<not> simOnly ?R"
    and h3: "dbName ?R = KeyholeDB"
    by (simp_all add: SetDropFirstMode_def new_runner_def demo_conn_def)
  have "fst (Cleanup (ok_env (ok_shard_env [] [])) ?R) =
     [Log ''dropping collection'', DropCollection ''_KEYHOLE_88800'' ''examples'',
      Log ''dropping temp database'', DropDatabase ''_KEYHOLE_88800'', Sleep 1000]"
    by code_simp
  with C9_cleanup_drops_then_sleeps [OF h1 h2 h3, of "ok_env (ok_shard_env [] [])"] h0 h1 h2 h3
  show ?thesis by simp
qed

subsection \<open>terminate\<close>

text \<open>
  C7. For every runner and every environment, terminate does exactly this, in this
  order, and nothing else:

  \<^item> the cleanup: nothing in peek mode; otherwise, when simulateOnly is off and the
    database is the default one, the drop of the examples collection (for the default
    collection name) and the drop of the database, a failed drop being logged; then
    the sleep of one second;
  \<^item> for every URI of the list, in order, a new client, and the server status where
    the client was made; a client or a status that fails is logged and the loop goes
    on with the next URI;
  \<^item> one log line for every status file written;
  \<^item> the marshalling of the metrics, a failure being logged;
  \<^item> the gzipped file \<open>keyhole_perf.<timestamp>.bson.gz\<close>, written with the marshalled
    metrics, or with no content when marshalling failed, and its log line;
  \<^item> \<open>os.Exit(0)\<close>.
\<close>

theorem C7_terminate_order:
  "terminate env rn =
    ((if peek rn then []
      else if \<not> simOnly rn \<and> dbName rn = KeyholeDB then
        (if collectionName rn = ExamplesCollection then
           [Log ''dropping collection'', DropCollection KeyholeDB ExamplesCollection]
           @ (case dropCollection env of Some e \<Rightarrow> [LogError e] | None \<Rightarrow> [])
         else [])
        @ [Log ''dropping temp database'', DropDatabase KeyholeDB]
        @ (case dropDatabase env of Some e \<Rightarrow> [LogError e] | None \<Rightarrow> [])
        @ [Sleep 1000]
      else [Sleep 1000])
     @ concat (map (\<lambda>u. NewMongoClient u #
                 (case newMongoClient env u of
                    Some e \<Rightarrow> [LogError e]
                  | None \<Rightarrow> PrintServerStatus u #
                      (case printServerStatus env u of
                         Inl e \<Rightarrow> [LogError e]
                       | Inr f \<Rightarrow> [])))
          (uriList rn))
     @ map (\<lambda>f. Log (''stats written to '' @ f))
         (concat (map (\<lambda>u. case newMongoClient env u of
                              Some e \<Rightarrow> []
                            | None \<Rightarrow>
                                (case printServerStatus env u of
                                   Inl e \<Rightarrow> []
                                 | Inr f \<Rightarrow> [f]))
            (uriList rn)))
     @ Marshal #
         (case marshal env (metrics rn) of
            Inl e \<Rightarrow> [Log ''marshal error:'', LogError e]
          | Inr b \<Rightarrow> [])
     @ [OutputGzipped (case marshal env (metrics rn) of Inl e \<Rightarrow> None | Inr b \<Rightarrow> Some b)
          (''keyhole_perf.'' @ fileTimestamp env @ ''.bson.gz''),
        Log (''optime written to '' @ ''keyhole_perf.'' @ fileTimestamp env @ ''.bson.gz'')],
     Halt (OsExit 0))"
proof -
  have cl: "fst (Cleanup env rn) =
     (if peek rn then []
      else if \<not> simOnly rn \<and> dbName rn = KeyholeDB then
        (if collectionName rn = ExamplesCollection then
           [Log ''dropping collection'', DropCollection KeyholeDB ExamplesCollection]
           @ (case dropCollection env of Some e \<Rightarrow> [LogError e] | None \<Rightarrow> [])
         else [])
        @ [Log ''dropping temp database'', DropDatabase KeyholeDB]
        @ (case dropDatabase env of Some e \<Rightarrow> [LogError e] | None \<Rightarrow> [])
        @ [Sleep 1000]
      else [Sleep 1000])"
    by (simp add: Cleanup_def)
  show ?thesis
    unfolding terminate_def Let_def collect_loop_closed cl perf_filename_def
    by (cases "marshal env (metrics rn)") simp_all
qed

subsection \<open>Failures of the partition planner\<close>




subsection \<open>The phases of a run\<close>

text \<open>
  C4. Start is taken where it schedules a run: peek mode is off and the operator has
  confirmed (or the runner is in auto mode). For a duration \<open>D \<ge> 1\<close>:

  \<^item> with simulateOnly, Start returns, no index is created, and the body of every
    worker is the simulation step for \<open>D\<close> minutes, with no population step;
  \<^item> without simulateOnly, whenever Start returns, the index creation lies in the
    trace of Start before the first goroutine is started, and the body of every worker
    is the population step followed, when it succeeds, by the simulation step for
    \<open>D - 1\<close> minutes: the minute taken off is the one given to the population;
  \<^item> without simulateOnly, Start returns on every cluster that is not sharded.
\<close>

theorem C4_phase_allocation:
  assumes "\<not> peek rn" and "snd (confirm env rn) = Return ()" and "1 \<le> duration rn"
  shows
    "(simOnly rn \<longrightarrow>
        snd (Start env rn) =
          Return (switch_db rn,
            map (\<lambda>t. Simulate (duration rn) t #
                   (case simulate env (duration rn) t of
                      Some e \<Rightarrow> [Log ''Thread existing with'', LogError e]
                    | None \<Rightarrow> []))
              [0 ..< nat (conns rn)]) \<and>
        filter is_CreateOne (fst (Start env rn)) = []) \<and>
     (\<not> simOnly rn \<longrightarrow>
        (\<forall>rn' ws. snd (Start env rn) = Return (rn', ws) \<longrightarrow>
           ws = map (\<lambda>t. PopulateData t #
                     (case populateData env t of
                        Some e \<Rightarrow> [Log ''Thread existing with'', LogError e]
                      | None \<Rightarrow>
                          Sleep 10 # Simulate (duration rn - 1) t #
                            (case simulate env (duration rn - 1) t of
                               Some e \<Rightarrow> [Log ''Thread existing with'', LogError e]
                             | None \<Rightarrow> [])))
                  [0 ..< nat (conns rn)] \<and>
           (\<exists>pre post. fst (Start env rn) =
               pre @ CreateOne [(''_search'', 1)] # post @ map Go [0 ..< nat (conns rn)] \<and>
               filter is_CreateOne pre = []))) \<and>
     (\<not> simOnly rn \<and> clusterType rn \<noteq> Sharded \<longrightarrow>
        (\<exists>rn' ws. snd (Start env rn) = Return (rn', ws)))"
proof -
  obtain tr0 where cf: "confirm env rn = (tr0, Return ())"
    using assms(2) by (cases "confirm env rn") simp
  have c0: "\<forall>x\<in>set tr0. \<not> is_CreateOne x"
    using confirm_events [of _ env rn] cf by fastforce
  have c1: "\<forall>x\<in>set (fst (Cleanup env (switch_db rn))). \<not> is_CreateOne x"
    using Cleanup_events [of _ env "switch_db rn"] by fastforce
  obtain tri where ci: "fst (createIndexes env (switch_db rn) (tdoc_Indexes env)) =
      CreateOne [(''_search'', 1)] # tri"
    using createIndexes_first by blast
  have ret: "\<exists>rn' ws. snd (Start env rn) = Return (rn', ws)"
    if ns: "\<not> simOnly rn" and nsh: "clusterType rn \<noteq> Sharded"
  proof -
    obtain e where "snd (createIndexes env (switch_db rn) (tdoc_Indexes env)) = Return e"
      using createIndexes_returns [of "switch_db rn" env "tdoc_Indexes env"] nsh
      by (auto simp: switch_db_clusterType)
    with ns assms(1) cf show ?thesis
      by (simp add: Start_def Let_def switch_db_fields)
  qed
  have sim: "simOnly rn \<Longrightarrow> ?thesis"
    using assms(1,3) cf c0 c1
    by (auto simp: Start_def Let_def switch_db_fields worker_def simulate_step_def filter_empty_conv)
  have nosim: "?thesis" if ns: "\<not> simOnly rn"
  proof -
    have w: "worker env (switch_db rn) (duration rn - 1) =
       (\<lambda>t. PopulateData t #
                     (case populateData env t of
                        Some e \<Rightarrow> [Log ''Thread existing with'', LogError e]
                      | None \<Rightarrow>
                          Sleep 10 # Simulate (duration rn - 1) t #
                            (case simulate env (duration rn - 1) t of
                               Some e \<Rightarrow> [Log ''Thread existing with'', LogError e]
                             | None \<Rightarrow> [])))"
      using ns assms(3) by (auto simp: worker_def simulate_step_def switch_db_fields fun_eq_iff split: option.splits)
    have tr: "fst (Start env rn) =
       (tr0 @ [Log ''Duration in minute(s)'']
          @ (if drop_mode rn then fst (Cleanup env (switch_db rn)) else [])
          @ [InitSimDocs, GetTransactions (txFilename (switch_db rn)), Log ''Total TPS''])
       @ CreateOne [(''_search'', 1)] # tri @ map Go [0 ..< nat (conns rn)]"
      if "snd (Start env rn) = Return (rn', ws)" for rn' ws
      using that ns assms(1) cf ci
      by (auto simp: Start_def Let_def switch_db_fields split: result.splits)
    have pre: "filter is_CreateOne (tr0 @ [Log ''Duration in minute(s)'']
          @ (if drop_mode rn then fst (Cleanup env (switch_db rn)) else [])
          @ [InitSimDocs, GetTransactions (txFilename (switch_db rn)), Log ''Total TPS'']) = []"
      using c0 c1 by (auto simp: filter_empty_conv)
    have ws: "ws = map (worker env (switch_db rn) (duration rn - 1)) [0 ..< nat (conns rn)]"
      if "snd (Start env rn) = Return (rn', ws)" for rn' ws
      using that ns assms(1) cf
      by (auto simp: Start_def Let_def switch_db_fields split: result.splits)
    have a: "\<forall>rn' ws. snd (Start env rn) = Return (rn', ws) \<longrightarrow>
           ws = map (\<lambda>t. PopulateData t #
                     (case populateData env t of
                        Some e \<Rightarrow> [Log ''Thread existing with'', LogError e]
                      | None \<Rightarrow>
                          Sleep 10 # Simulate (duration rn - 1) t #
                            (case simulate env (duration rn - 1) t of
                               Some e \<Rightarrow> [Log ''Thread existing with'', LogError e]
                             | None \<Rightarrow> [])))
                  [0 ..< nat (conns rn)] \<and>
           (\<exists>pre post. fst (Start env rn) =
               pre @ CreateOne [(''_search'', 1)] # post @ map Go [0 ..< nat (conns rn)] \<and>
               filter is_CreateOne pre = [])"
    proof (intro allI impI conjI)
      fix rn' ws
      assume r: "snd (Start env rn) = Return (rn', ws)"
      from ws [OF r] w show "ws = map (\<lambda>t. PopulateData t #
                     (case populateData env t of
                        Some e \<Rightarrow> [Log ''Thread existing with'', LogError e]
                      | None \<Rightarrow>
                          Sleep 10 # Simulate (duration rn - 1) t #
                            (case simulate env (duration rn - 1) t of
                               Some e \<Rightarrow> [Log ''Thread existing with'', LogError e]
                             | None \<Rightarrow> [])))
                  [0 ..< nat (conns rn)]"
        by simp
      from tr [OF r] pre show "\<exists>pre post. fst (Start env rn) =
               pre @ CreateOne [(''_search'', 1)] # post @ map Go [0 ..< nat (conns rn)] \<and>
               filter is_CreateOne pre = []"
        by blast
    qed
    from ns a ret show ?thesis by blast
  qed
  from sim nosim show ?thesis by blast
qed


theorem C4_witness:
  "\<not> peek demo_runner \<and> 1 \<le> duration demo_runner \<and> \<not> simOnly demo_runner \<and>
   snd (confirm (ok_env (ok_shard_env [''s0'', ''s1''] [])) demo_runner) = Return () \<and>
   snd (Start (ok_env (ok_shard_env [''s0'', ''s1''] [])) demo_runner) =
     Return (demo_runner,
       [ [PopulateData 0, Sleep 10, Simulate 2 0], [PopulateData 1, Sleep 10, Simulate 2 1]]) \<and>
   simOnly (demo_runner\<lparr>simOnly := True\<rparr>) \<and>
   snd (Start (ok_env (ok_shard_env [''s0'', ''s1''] [])) (demo_runner\<lparr>simOnly := True\<rparr>)) =
     Return (demo_runner\<lparr>simOnly := True\<rparr>, [ [Simulate 3 0], [Simulate 3 1]]) \<and>
   filter is_CreateOne
     (fst (Start (ok_env (ok_shard_env [''s0'', ''s1''] [])) (demo_runner\<lparr>simOnly := True\<rparr>))) = []"
proof -
  let ?E = "ok_env (ok_shard_env [''s0'', ''s1''] [])"
  let ?S = "demo_runner\<lparr>simOnly := True\<rparr>"
  have h1: "\<not> peek demo_runner" and h3: "1 \<le> duration demo_runner" and h4: "\<not> simOnly demo_runner"
    by (simp_all add: demo_runner_def new_runner_def)
  have h2: "snd (confirm ?E demo_runner) = Return ()"
    by (simp add: confirm_def demo_runner_def)
  have g1: "\<not> peek ?S" and g3: "1 \<le> duration ?S" and g4: "simOnly ?S"
    by (simp_all add: demo_runner_def new_runner_def)
  have g2: "snd (confirm ?E ?S) = Return ()"
    by (simp add: confirm_def demo_runner_def)
  have r: "snd (Start ?E demo_runner) =
     Return (demo_runner,
       [ [PopulateData 0, Sleep 10, Simulate 2 0], [PopulateData 1, Sleep 10, Simulate 2 1]])"
    by code_simp
  have ws: "map (\<lambda>t. Simulate (duration ?S) t #
                   (case simulate ?E (duration ?S) t of
                      Some e \<Rightarrow> [Log ''Thread existing with'', LogError e]
                    | None \<Rightarrow> []))
              [0 ..< nat (conns ?S)] = [ [Simulate 3 0], [Simulate 3 1]]"
    by code_simp
  have sw: "switch_db ?S = ?S"
    by (simp add: switch_db_def demo_runner_def new_runner_def demo_conn_def KeyholeDB_def)
  from C4_phase_allocation [OF g1 g2 g3] g4 ws sw
  have s: "snd (Start ?E ?S) = Return (?S, [ [Simulate 3 0], [Simulate 3 1]]) \<and>
           filter is_CreateOne (fst (Start ?E ?S)) = []"
    by simp
  from C4_phase_allocation [OF h1 h2 h3] h4 r
  have "[ [PopulateData 0, Sleep 10, Simulate 2 0], [PopulateData 1, Sleep 10, Simulate 2 1]] =
     map (\<lambda>t. PopulateData t #
                     (case populateData ?E t of
                        Some e \<Rightarrow> [Log ''Thread existing with'', LogError e]
                      | None \<Rightarrow>
                          Sleep 10 # Simulate (duration demo_runner - 1) t #
                            (case simulate ?E (duration demo_runner - 1) t of
                               Some e \<Rightarrow> [Log ''Thread existing with'', LogError e]
                             | None \<Rightarrow> [])))
                  [0 ..< nat (conns demo_runner)]"
    by blast
  with h1 h2 h3 h4 g4 r s show ?thesis by simp
qed

subsection \<open>Topology resolution\<close>

text \<open>
  C8. Once the client of the entry connection is made and the cluster is probed,
  NewRunner fails with the invalid-cluster-type error (and no runner) exactly when the
  cluster type string is empty. Otherwise, on a cluster that is not sharded it succeeds
  with the singleton list of the entry connection; and whenever it succeeds on a sharded
  cluster, the list has one URI per shard that GetShards reported, each derived from
  its shard, in order.
\<close>

theorem C8_topology_resolution:
  assumes "newMongoClient env (cs_String cs) = None"
  shows "(NewRunner env tenv cs = Return (None, Some (InvalidClusterType ''invalid cluster type: ''))
            \<longleftrightarrow> cluster tenv = []) \<and>
         (cluster tenv \<noteq> [] \<and> cluster tenv \<noteq> Sharded \<longrightarrow>
            (\<exists>rn. NewRunner env tenv cs = Return (Some rn, None) \<and> uriList rn = [cs_String cs])) \<and>
         (\<forall>rn. cluster tenv = Sharded \<and> NewRunner env tenv cs = Return (Some rn, None) \<longrightarrow>
            (\<exists>shards. getShards tenv = Inr shards \<and> length (uriList rn) = length shards \<and>
               map Inr (uriList rn) = map (\<lambda>s. shardURI tenv s cs) shards))"
  using assms
  by (auto simp: NewRunner_def Let_def set_uri_def Sharded_def
      split: sum.splits prod.splits option.splits if_splits
      dest: GetAllShardURIs_length GetAllShardURIs_each)

theorem C8_witness:
  "newMongoClient (ok_env (ok_shard_env [] [])) (cs_String demo_conn) = None \<and>
   NewRunner (ok_env (ok_shard_env [] [])) (demo_topo [] []) demo_conn =
     Return (None, Some (InvalidClusterType ''invalid cluster type: '')) \<and>
   (\<exists>rn. NewRunner (ok_env (ok_shard_env [] [])) (demo_topo ''replica'' []) demo_conn =
       Return (Some rn, None) \<and> uriList rn = [''mongodb://localhost/'']) \<and>
   (\<exists>rn. NewRunner (ok_env (ok_shard_env [] []))
          (demo_topo Sharded [Shard ''s0'' ''h0:27018'', Shard ''s1'' ''h1:27018'']) demo_conn =
       Return (Some rn, None) \<and> length (uriList rn) = 2)"
proof -
  let ?E = "ok_env (ok_shard_env [] [])"
  let ?T = "demo_topo Sharded [Shard ''s0'' ''h0:27018'', Shard ''s1'' ''h1:27018'']"
  have h: "newMongoClient ?E (cs_String demo_conn) = None"
    by (simp add: ok_env_def)
  have c1: "cluster (demo_topo [] []) = []"
    and c2: "cluster (demo_topo ''replica'' []) \<noteq> [] \<and> cluster (demo_topo ''replica'' []) \<noteq> Sharded"
    and c3: "cluster ?T = Sharded"
    and c4: "getShards ?T = Inr [Shard ''s0'' ''h0:27018'', Shard ''s1'' ''h1:27018'']"
    by (simp_all add: demo_topo_def Sharded_def)
  obtain rn where r: "NewRunner ?E ?T demo_conn = Return (Some rn, None)"
    by (simp add: NewRunner_def new_runner_def demo_topo_def ok_env_def demo_conn_def Sharded_def set_uri_def)
  have a: "NewRunner ?E (demo_topo [] []) demo_conn =
     Return (None, Some (InvalidClusterType ''invalid cluster type: ''))"
    using C8_topology_resolution [OF h, of "demo_topo [] []"] c1 by simp
  have b: "\<exists>rn. NewRunner ?E (demo_topo ''replica'' []) demo_conn =
       Return (Some rn, None) \<and> uriList rn = [''mongodb://localhost/'']"
    using C8_topology_resolution [OF h, of "demo_topo ''replica'' []"] c2 by (simp add: demo_conn_def)
  have "length (uriList rn) = 2"
    using C8_topology_resolution [OF h, of ?T] c3 c4 r by auto
  with r a b h show ?thesis by blast
qed

subsection \<open>The peek deadline\<close>

text \<open>
  C10. In every sequence of setter calls, the goroutine started by
  \<open>SetPeekingMode(true)\<close> gets the value the duration field holds at that call,
  whatever calls come later; and on a runner that NewRunner handed back, when no
  SetSimulationDuration comes before it, that value is 0: the goroutine sleeps for zero
  minutes and calls terminate at once.
\<close>

theorem C10_peek_deadline_is_duration_at_call:
  "snd (run_calls (pre @ CallSetPeekingMode True # post) rn) =
     snd (run_calls pre rn) @ duration (fst (run_calls pre rn)) #
       snd (run_calls post (fst (run_calls (pre @ [CallSetPeekingMode True]) rn))) \<and>
   (NewRunner env tenv cs = Return (Some rn, err) \<and> \<not> list_ex is_SetSimulationDuration pre
      \<longrightarrow> duration (fst (run_calls pre rn)) = 0)"
proof -
  have one: "run_calls [CallSetPeekingMode True] r = (r\<lparr>peek := True\<rparr>, [duration r])" for r
    by (simp add: run_calls_def SetPeekingMode_def Let_def)
  have "pre @ CallSetPeekingMode True # post = (pre @ [CallSetPeekingMode True]) @ post"
    by simp
  then have "snd (run_calls (pre @ CallSetPeekingMode True # post) rn) =
     snd (run_calls (pre @ [CallSetPeekingMode True]) rn) @
       snd (run_calls post (fst (run_calls (pre @ [CallSetPeekingMode True]) rn)))"
    using run_calls_append [of "pre @ [CallSetPeekingMode True]" post rn] by simp
  moreover have "snd (run_calls (pre @ [CallSetPeekingMode True]) rn) =
     snd (run_calls pre rn) @ [duration (fst (run_calls pre rn))]"
    using run_calls_append [of pre "[CallSetPeekingMode True]" rn] one by simp
  moreover have "duration (fst (run_calls pre rn)) = 0"
    if "NewRunner env tenv cs = Return (Some rn, err)" and "\<not> list_ex is_SetSimulationDuration pre"
    using foldl_duration [OF that(2), of rn "[]"] NewRunner_duration [OF that(1)]
    by (simp add: run_calls_def)
  ultimately show ?thesis by simp
qed

theorem C10_witness:
  "\<exists>rn. NewRunner (ok_env (ok_shard_env [] [])) (demo_topo ''replica'' []) demo_conn =
          Return (Some rn, None) \<and>
        \<not> list_ex is_SetSimulationDuration [CallSetAutoMode True] \<and>
        snd (run_calls ([CallSetAutoMode True] @ CallSetPeekingMode True #
               [CallSetSimulationDuration 10]) rn) = [0] \<and>
        duration (fst (run_calls ([CallSetAutoMode True] @ CallSetPeekingMode True #
               [CallSetSimulationDuration 10]) rn)) = 10"
proof -
  let ?E = "ok_env (ok_shard_env [] [])"
  let ?T = "demo_topo ''replica'' []"
  obtain rn where r: "NewRunner ?E ?T demo_conn = Return (Some rn, None)"
    by (simp add: NewRunner_def new_runner_def demo_topo_def ok_env_def demo_conn_def Sharded_def set_uri_def)
  have n: "\<not> list_ex is_SetSimulationDuration [CallSetAutoMode True]"
    by simp
  have pre: "snd (run_calls [CallSetAutoMode True] rn) = []"
    by (simp add: run_calls_def)
  have post: "snd (run_calls [CallSetSimulationDuration 10] r') = []" for r'
    by (simp add: run_calls_def)
  have d: "duration (fst (run_calls ([CallSetAutoMode True] @ CallSetPeekingMode True #
               [CallSetSimulationDuration 10]) rn)) = 10"
    by (simp add: run_calls_def SetPeekingMode_def SetSimulationDuration_def Let_def)
  from C10_peek_deadline_is_duration_at_call [of "[CallSetAutoMode True]" "[CallSetSimulationDuration 10]" rn ?E ?T demo_conn None]
    r n pre post
  have "snd (run_calls ([CallSetAutoMode True] @ CallSetPeekingMode True #
               [CallSetSimulationDuration 10]) rn) = [0]"
    by simp
  with r n d show ?thesis by blast
qed

subsection \<open>The triggers of terminate\<close>

text \<open>
  C1, as the claim states it, fails: nothing guards terminate. After one call
  \<open>SetPeekingMode(true)\<close> the wait loop of CollectAllStatus and the goroutine of the
  setter are two goroutines; after the timer has sent the wait loop into terminate, the
  peek deadline sends the other goroutine into it too, before the process has exited.
  Both triggers are acted upon and the first step of the collection is done twice.
\<close>

theorem C1_terminate_entered_twice:
  "run_calls [CallSetPeekingMode True] demo_runner = (demo_runner\<lparr>peek := True\<rparr>, [3]) \<and>
   acted (run_schedule (ok_env (ok_shard_env [] [])) (demo_runner\<lparr>peek := True\<rparr>) [3]
     [Fire Timer, Run WaitLoop, Fire (PeekDeadline 0), Run (PeekSleeper 0)]) =
       [Timer, PeekDeadline 0] \<and>
   done_events (run_schedule (ok_env (ok_shard_env [] [])) (demo_runner\<lparr>peek := True\<rparr>) [3]
     [Fire Timer, Run WaitLoop, Fire (PeekDeadline 0), Run (PeekSleeper 0)]) =
       [NewMongoClient ''mongodb://a/'', NewMongoClient ''mongodb://a/''] \<and>
   exited (run_schedule (ok_env (ok_shard_env [] [])) (demo_runner\<lparr>peek := True\<rparr>) [3]
     [Fire Timer, Run WaitLoop, Fire (PeekDeadline 0), Run (PeekSleeper 0)]) = None"
  by code_simp

text \<open>
  C1, amended. For every runner, every list of peek goroutines started by the setter
  calls and every schedule:

  \<^item> the wait loop acts on at most one of its triggers, no trigger is acted upon twice,
    only the deadlines of goroutines that were started are acted upon, and so terminate
    is entered at most once per goroutine, one plus the number of calls
    \<open>SetPeekingMode(true)\<close> at most;
  \<^item> as long as the process has not exited, the wait loop has acted on exactly the
    first timer or signal of the schedule and on none after it, and every peek goroutine
    whose deadline has passed has entered terminate, whether or not the shutdown had
    begun; with no peek goroutine, terminate is entered exactly once, on the first
    trigger;
  \<^item> once the process has exited, with status 0, every further trigger or step
    changes nothing.
\<close>

theorem C1_terminate_entered_once_per_goroutine:
  "length (filter is_wait_trigger (acted (run_schedule env rn timers ss))) \<le> 1 \<and>
   distinct (acted (run_schedule env rn timers ss)) \<and>
   (\<forall>i. PeekDeadline i \<in> set (acted (run_schedule env rn timers ss)) \<longrightarrow> i < length timers) \<and>
   length (acted (run_schedule env rn timers ss)) \<le> 1 + length timers \<and>
   (exited (run_schedule env rn timers ss) = None \<longrightarrow>
      filter is_wait_trigger (acted (run_schedule env rn timers ss)) =
        take 1 (filter is_wait_trigger (fired ss)) \<and>
      (\<forall>i. PeekDeadline i \<in> set (acted (run_schedule env rn timers ss)) \<longleftrightarrow>
           i < length timers \<and> PeekDeadline i \<in> set (fired ss))) \<and>
   (exited (run_schedule env rn timers ss) = None \<and> timers = [] \<longrightarrow>
      acted (run_schedule env rn timers ss) = take 1 (filter is_wait_trigger (fired ss))) \<and>
   (exited (run_schedule env rn timers ss) \<noteq> None \<longrightarrow>
      exited (run_schedule env rn timers ss) = Some 0 \<and>
      run_schedule env rn timers (ss @ later) = run_schedule env rn timers ss)"
proof -
  let ?p = "run_schedule env rn timers ss"
  have inv: "coordinator_inv (Halt (OsExit 0)) (length timers) ?p"
    by (rule run_schedule_inv)
  have a: "length (filter is_wait_trigger (acted ?p)) \<le> 1"
    using inv entered_le [of "wait_loop ?p"] by (simp add: coordinator_inv_def)
  have b: "distinct (acted ?p)"
    using inv by (simp add: coordinator_inv_def)
  have c: "\<forall>i. PeekDeadline i \<in> set (acted ?p) \<longrightarrow> i < length timers"
    using inv by (simp add: coordinator_inv_def)
  have d: "length (acted ?p) \<le> 1 + length timers"
    using inv by (rule acted_bound)
  have e: "filter is_wait_trigger (acted ?p) = take 1 (filter is_wait_trigger (fired ss)) \<and>
      (\<forall>i. PeekDeadline i \<in> set (acted ?p) \<longleftrightarrow>
           i < length timers \<and> PeekDeadline i \<in> set (fired ss))"
    if "exited ?p = None"
    using that by (rule acted_exact)
  have f: "acted ?p = take 1 (filter is_wait_trigger (fired ss))"
    if ex: "exited ?p = None" and nt: "timers = []"
  proof -
    have "is_wait_trigger t" if "t \<in> set (acted ?p)" for t
    proof (cases t)
      case (PeekDeadline i)
      with that c nt show ?thesis by auto
    qed simp_all
    then have "filter is_wait_trigger (acted ?p) = acted ?p"
      by (simp add: filter_id_conv)
    with e [OF ex] show ?thesis by simp
  qed
  have g: "exited ?p = Some 0 \<and> run_schedule env rn timers (ss @ later) = ?p"
    if ex: "exited ?p \<noteq> None"
  proof -
    have "exited ?p = Some 0"
      using run_schedule_exit_code [of env rn timers ss] ex by blast
    moreover have "run_schedule env rn timers (ss @ later) = ?p"
      using foldl_step_exited [OF ex, of env rn later] by (simp add: run_schedule_def)
    ultimately show ?thesis by simp
  qed
  from a b c d e f g show ?thesis by blast
qed

theorem C1_witness:
  "exited (run_schedule (ok_env (ok_shard_env [] [])) (demo_runner\<lparr>peek := True\<rparr>) [3]
     [Fire OperatorSignal, Fire Timer, Fire (PeekDeadline 0)]) = None \<and>
   filter is_wait_trigger
     (acted (run_schedule (ok_env (ok_shard_env [] [])) (demo_runner\<lparr>peek := True\<rparr>) [3]
        [Fire OperatorSignal, Fire Timer, Fire (PeekDeadline 0)])) = [OperatorSignal] \<and>
   PeekDeadline 0 \<in> set
     (acted (run_schedule (ok_env (ok_shard_env [] [])) (demo_runner\<lparr>peek := True\<rparr>) [3]
        [Fire OperatorSignal, Fire Timer, Fire (PeekDeadline 0)])) \<and>
   exited (run_schedule (ok_env (ok_shard_env [] [])) demo_runner []
     [Fire Timer, Fire OperatorSignal]) = None \<and>
   acted (run_schedule (ok_env (ok_shard_env [] [])) demo_runner []
     [Fire Timer, Fire OperatorSignal]) = [Timer] \<and>
   exited (run_schedule (ok_env (ok_shard_env [] [])) demo_runner []
     (Fire Timer # replicate 15 (Run WaitLoop))) = Some 0 \<and>
   run_schedule (ok_env (ok_shard_env [] [])) demo_runner []
     ((Fire Timer # replicate 15 (Run WaitLoop)) @ [Fire OperatorSignal]) =
   run_schedule (ok_env (ok_shard_env [] [])) demo_runner []
     (Fire Timer # replicate 15 (Run WaitLoop))"
proof -
  let ?E = "ok_env (ok_shard_env [] [])"
  let ?P = "demo_runner\<lparr>peek := True\<rparr>"
  let ?s1 = "[Fire OperatorSignal, Fire Timer, Fire (PeekDeadline 0)]"
  let ?s2 = "[Fire Timer, Fire OperatorSignal]"
  let ?s3 = "Fire Timer # replicate 15 (Run WaitLoop)"
  have h1: "exited (run_schedule ?E ?P [3] ?s1) = None"
    by code_simp
  have h2: "exited (run_schedule ?E demo_runner [] ?s2) = None"
    by code_simp
  have h3: "exited (run_schedule ?E demo_runner [] ?s3) \<noteq> None"
    by code_simp
  have f1: "take 1 (filter is_wait_trigger (fired ?s1)) = [OperatorSignal]"
    and f1': "PeekDeadline 0 \<in> set (fired ?s1)"
    and f2: "take 1 (filter is_wait_trigger (fired ?s2)) = [Timer]"
    by simp_all
  from C1_terminate_entered_once_per_goroutine [of ?E ?P "[3]" ?s1] h1 f1 f1'
  have a: "filter is_wait_trigger (acted (run_schedule ?E ?P [3] ?s1)) = [OperatorSignal]"
    and b: "PeekDeadline 0 \<in> set (acted (run_schedule ?E ?P [3] ?s1))"
    by simp_all
  from C1_terminate_entered_once_per_goroutine [of ?E demo_runner "[]" ?s2] h2 f2
  have c: "acted (run_schedule ?E demo_runner [] ?s2) = [Timer]"
    by simp
  from C1_terminate_entered_once_per_goroutine [of ?E demo_runner "[]" ?s3 "[Fire OperatorSignal]"] h3
  have d: "exited (run_schedule ?E demo_runner [] ?s3) = Some 0"
    and e: "run_schedule ?E demo_runner [] (?s3 @ [Fire OperatorSignal]) =
            run_schedule ?E demo_runner [] ?s3"
    by blast+
  from h1 a b h2 c d e show ?thesis by blast
qed


end
